theory Spec2Isabelle
  imports Complex_Main
begin

section \<open>Python values of the link-prediction example\<close>

text \<open>
  The file \<^verbatim>\<open>examples/link_prediction_hetero/link_prediction_tensor.py\<close> is a training
  script. Its own code is the graph transformer \<^verbatim>\<open>WN_transform\<close>, the loss of
  \<^verbatim>\<open>HeteroNet\<close>, the loops \<^verbatim>\<open>train\<close> and \<^verbatim>\<open>test\<close>, \<^verbatim>\<open>arg_parse\<close> and \<^verbatim>\<open>main\<close>.
  Exceptions are values of \<open>py_error\<close>; a function that can raise returns
  \<open>py_error + 'a\<close>, with \<open>Inl\<close> for the exception.
\<close>

datatype py_error =
  KeyError | IndexError | AttributeError | ZeroDivisionError | UnboundLocalError | ValueError

text \<open>
  Two kinds of integer meet in the accuracy counters: Python's unbounded \<^verbatim>\<open>int\<close>
  (the literal \<^verbatim>\<open>0\<close>, the result of \<^verbatim>\<open>len\<close>) and numpy's \<^verbatim>\<open>int64\<close> (the result of
  \<^verbatim>\<open>np.sum\<close>). Adding an \<^verbatim>\<open>int64\<close> to either gives an \<^verbatim>\<open>int64\<close>, which wraps at 64 bits.
\<close>

datatype count = PyInt int | NpInt64 int

fun count_val :: "count \<Rightarrow> int" where
  "count_val (PyInt a) = a"
| "count_val (NpInt64 a) = a"

definition wrap64 :: "int \<Rightarrow> int" where
  "wrap64 x = (x + 2 ^ 63) mod 2 ^ 64 - 2 ^ 63"

definition iadd_np :: "count \<Rightarrow> int \<Rightarrow> count" where
  \<comment> \<open>\<^verbatim>\<open>acc += np.sum(...)\<close>: the right operand is an \<^verbatim>\<open>int64\<close>, and so is the result.\<close>
  "iadd_np c n = NpInt64 (wrap64 (count_val c + n))"

text \<open>
  A float is modelled as an exact real number, or one of the three special values that a
  division can produce. Rounding is not modelled.
\<close>

datatype pyfloat = Fl real | PosInf | NegInf | NaN

fun fl_less :: "pyfloat \<Rightarrow> pyfloat \<Rightarrow> bool" where
  "fl_less (Fl a) (Fl b) = (a < b)"
| "fl_less (Fl a) PosInf = True"
| "fl_less NegInf (Fl b) = True"
| "fl_less NegInf PosInf = True"
| "fl_less _ _ = False"

fun truediv :: "count \<Rightarrow> int \<Rightarrow> py_error + pyfloat" where
  \<comment> \<open>\<^verbatim>\<open>a / b\<close> with \<^verbatim>\<open>b\<close> a Python int: Python's own division raises on zero, numpy's
      scalar division warns and returns \<^verbatim>\<open>nan\<close> or an infinity.\<close>
  "truediv (PyInt a) b =
     (if b = 0 then Inl ZeroDivisionError else Inr (Fl (real_of_int a / real_of_int b)))"
| "truediv (NpInt64 a) b =
     (if b = 0 then Inr (if a = 0 then NaN else if 0 < a then PosInf else NegInf)
      else Inr (Fl (real_of_int a / real_of_int b)))"

subsection \<open>Dictionaries\<close>

text \<open>
  A dictionary is an association list in iteration order, with distinct keys.
  \<open>dict_get\<close> is \<^verbatim>\<open>d[k]\<close>, \<open>dict_set\<close> is \<^verbatim>\<open>d[k] = v\<close>.
\<close>

definition dict_get :: "('k \<times> 'v) list \<Rightarrow> 'k \<Rightarrow> py_error + 'v" where
  "dict_get d k = (case map_of d k of None \<Rightarrow> Inl KeyError | Some v \<Rightarrow> Inr v)"

fun dict_set :: "('k \<times> 'v) list \<Rightarrow> 'k \<Rightarrow> 'v \<Rightarrow> ('k \<times> 'v) list" where
  "dict_set [] k v = [(k, v)]"
| "dict_set ((k', v') # d) k v = (if k' = k then (k, v) # d else (k', v') # dict_set d k v)"

section \<open>The accuracy count of one batch\<close>

text \<open>
  Tensors and arrays are one-dimensional here: a score tensor holds one score per candidate
  edge of a relation type, a label tensor one 0/1 label per candidate edge.
\<close>

definition sigmoid :: "real \<Rightarrow> real" where
  "sigmoid x = 1 / (1 + exp (- x))"

definition np_where :: "(real \<Rightarrow> bool) \<Rightarrow> real list \<Rightarrow> nat list" where
  \<comment> \<open>\<^verbatim>\<open>np.where(cond)[0]\<close>: the indices at which the condition holds.\<close>
  "np_where P p = filter (\<lambda>i. P (p ! i)) [0..<length p]"

definition put :: "int list \<Rightarrow> nat list \<Rightarrow> int \<Rightarrow> int list" where
  \<comment> \<open>\<^verbatim>\<open>a[idx] = v\<close> for an index array \<^verbatim>\<open>idx\<close>.\<close>
  "put a idx v = fold (\<lambda>i b. b[i := v]) idx a"

definition pred_label :: "real list \<Rightarrow> int list" where
  \<comment> \<open>\<^verbatim>\<open>np.zeros_like(p)\<close>, then the two assignments through \<^verbatim>\<open>np.where\<close>.\<close>
  "pred_label p =
     put (put (replicate (length p) 0) (np_where (\<lambda>x. x > 1 / 2) p) 1)
         (np_where (\<lambda>x. x \<le> 1 / 2) p) 0"

definition np_eq :: "int list \<Rightarrow> int list \<Rightarrow> py_error + bool list" where
  \<comment> \<open>\<^verbatim>\<open>a == b\<close> on arrays: elementwise, an array of length one is broadcast; other
      shapes do not agree (reported as \<open>ValueError\<close>).\<close>
  "np_eq a b =
     (if length a = length b then Inr (map (\<lambda>(x, y). x = y) (zip a b))
      else if length b = 1 then Inr (map (\<lambda>x. x = hd b) a)
      else if length a = 1 then Inr (map (\<lambda>y. hd a = y) b)
      else Inl ValueError)"

definition np_sum :: "bool list \<Rightarrow> int" where
  \<comment> \<open>\<^verbatim>\<open>np.sum\<close> of a boolean array: the number of \<^verbatim>\<open>True\<close> entries, as an \<^verbatim>\<open>int64\<close>.\<close>
  "np_sum bs = wrap64 (int (length (filter (\<lambda>b. b) bs)))"

type_synonym pred = "(string \<times> real list) list"
type_synonym labels = "(string \<times> int list) list"

text \<open>
  The loop \<^verbatim>\<open>for key in pred\<close> of lines 139 to 145 (in \<^verbatim>\<open>train\<close>) and again of lines 186
  to 192 (in \<^verbatim>\<open>test\<close>): the same statements on two pairs of counters.
\<close>

fun count_keys :: "pred \<Rightarrow> labels \<Rightarrow> count \<times> int \<Rightarrow> py_error + count \<times> int" where
  "count_keys [] y (acc, num) = Inr (acc, num)"
| "count_keys ((key, s) # rest) y (acc, num) =
     (let pl = pred_label (map sigmoid s) in
      case dict_get y key of Inl e \<Rightarrow> Inl e
      | Inr yk \<Rightarrow>
          (case np_eq pl yk of Inl e \<Rightarrow> Inl e
           | Inr bs \<Rightarrow> count_keys rest y (iadd_np acc (np_sum bs), num + int (length pl))))"

section \<open>The model object and the evaluation routine\<close>

record 'x batch =
  inputs :: 'x
  edge_label :: labels

text \<open>
  The network's layers come from the library, so the forward pass, the switch between
  training and evaluation mode and the optimizer's update are parameters. \<open>'m\<close> is the value
  of a model object, \<open>'o\<close> the optimizer's state, \<open>'x\<close> what a batch carries besides its labels.
\<close>

record ('m, 'o, 'x) net =
  forward :: "'m \<Rightarrow> 'x batch \<Rightarrow> py_error + pred"
  set_training :: "bool \<Rightarrow> 'm \<Rightarrow> 'm"
  optimizer_step :: "'o \<Rightarrow> 'm \<Rightarrow> 'x batch \<Rightarrow> 'o \<times> 'm"

type_synonym 'x dataloaders = "(string \<times> 'x batch list) list"
type_synonym accs = "(string \<times> pyfloat) list"

text \<open>
  The batch loop of \<^verbatim>\<open>test\<close>. \<^verbatim>\<open>acc\<close> is set to 0 before the loop, \<^verbatim>\<open>num\<close> is set to 0
  at the start of every iteration (line 183). \<^verbatim>\<open>num\<close> is a local variable of \<^verbatim>\<open>test\<close>:
  \<open>None\<close> while it has not been assigned.
\<close>

fun test_batches ::
  "('m, 'o, 'x) net \<Rightarrow> 'm \<Rightarrow> 'x batch list \<Rightarrow> count \<Rightarrow> int option \<Rightarrow> py_error + count \<times> int option"
where
  "test_batches env m [] acc num = Inr (acc, num)"
| "test_batches env m (b # bs) acc num =
     (case forward env m b of Inl e \<Rightarrow> Inl e
      | Inr pred \<Rightarrow>
          (case count_keys pred (edge_label b) (acc, 0) of Inl e \<Rightarrow> Inl e
           | Inr (acc', num') \<Rightarrow> test_batches env m bs acc' (Some num')))"

fun test_splits ::
  "('m, 'o, 'x) net \<Rightarrow> 'm \<Rightarrow> 'x dataloaders \<Rightarrow> accs \<Rightarrow> int option \<Rightarrow> py_error + accs"
where
  "test_splits env m [] accs num = Inr accs"
| "test_splits env m ((mode, dataloader) # rest) accs num =
     (case test_batches env m dataloader (PyInt 0) num of Inl e \<Rightarrow> Inl e
      | Inr (acc, num') \<Rightarrow>
          (case num' of None \<Rightarrow> Inl UnboundLocalError
           | Some n \<Rightarrow>
               (case truediv acc n of Inl e \<Rightarrow> Inl e
                | Inr r \<Rightarrow> test_splits env m rest (dict_set accs mode r) num')))"

text \<open>
  Model objects live in a heap, a list indexed by address; \<^verbatim>\<open>model.eval()\<close> changes the
  object that \<^verbatim>\<open>model\<close> refers to, so \<open>test\<close> returns the heap as well. Moving a batch
  to the device (\<^verbatim>\<open>batch.to(args.device)\<close>) is left out, here and in \<^verbatim>\<open>train\<close>.
\<close>

definition test ::
  "('m, 'o, 'x) net \<Rightarrow> 'm list \<Rightarrow> nat \<Rightarrow> 'x dataloaders \<Rightarrow> py_error + 'm list \<times> accs"
where
  "test env heap model dataloaders =
     (let heap' = heap[model := set_training env False (heap ! model)] in
      case test_splits env (heap' ! model) dataloaders [] None of Inl e \<Rightarrow> Inl e
      | Inr accs \<Rightarrow> Inr (heap', accs))"

section \<open>The loss of \<^verbatim>\<open>HeteroNet\<close>\<close>

text \<open>
  \<^verbatim>\<open>torch.nn.BCEWithLogitsLoss()\<close>, with its default mean reduction, as the library
  documents it: the loss of one element is \<open>- (y ln \<sigma>(x) + (1 - y) ln (1 - \<sigma>(x)))\<close>;
  input and target must have the same size; the mean of no elements is \<^verbatim>\<open>nan\<close>.
\<close>

definition bce_elem :: "real \<Rightarrow> real \<Rightarrow> real" where
  "bce_elem x y = - (y * ln (sigmoid x) + (1 - y) * ln (1 - sigmoid x))"

definition BCEWithLogitsLoss :: "real list \<Rightarrow> real list \<Rightarrow> py_error + pyfloat" where
  "BCEWithLogitsLoss input target =
     (if length input \<noteq> length target then Inl ValueError
      else if input = [] then Inr NaN
      else Inr (Fl (sum_list (map (\<lambda>(x, y). bce_elem x y) (zip input target))
                    / real (length input))))"

fun fl_add :: "pyfloat \<Rightarrow> pyfloat \<Rightarrow> pyfloat" where
  "fl_add (Fl a) (Fl b) = Fl (a + b)"
| "fl_add NaN _ = NaN"
| "fl_add _ NaN = NaN"
| "fl_add PosInf NegInf = NaN"
| "fl_add NegInf PosInf = NaN"
| "fl_add PosInf _ = PosInf"
| "fl_add _ PosInf = PosInf"
| "fl_add NegInf _ = NegInf"
| "fl_add _ NegInf = NegInf"

text \<open>
  \<^verbatim>\<open>loss = 0\<close> is a Python int; after the first \<^verbatim>\<open>loss += ...\<close> it is a tensor.
\<close>

datatype loss_val = IntLoss int | TensorLoss pyfloat

fun loss_add :: "loss_val \<Rightarrow> pyfloat \<Rightarrow> loss_val" where
  "loss_add (IntLoss a) v = TensorLoss (fl_add (Fl (real_of_int a)) v)"
| "loss_add (TensorLoss u) v = TensorLoss (fl_add u v)"

fun loss_keys :: "pred \<Rightarrow> labels \<Rightarrow> loss_val \<Rightarrow> py_error + loss_val" where
  "loss_keys [] y l = Inr l"
| "loss_keys ((key, s) # rest) y l =
     (let p = map sigmoid s in
      case dict_get y key of Inl e \<Rightarrow> Inl e
      | Inr yk \<Rightarrow>
          (case BCEWithLogitsLoss p (map real_of_int yk) of Inl e \<Rightarrow> Inl e
           | Inr v \<Rightarrow> loss_keys rest y (loss_add l v)))"

definition loss :: "pred \<Rightarrow> labels \<Rightarrow> py_error + loss_val" where
  "loss pred y = loss_keys pred y (IntLoss 0)"

section \<open>Command-line arguments\<close>

text \<open>
  \<^verbatim>\<open>arg_parse\<close> declares eight options and their defaults. The command line is taken as
  the list of options given, each with its value already converted by \<^verbatim>\<open>argparse\<close>; a
  later occurrence of an option overrides an earlier one.
\<close>

record args =
  device :: string
  data_path :: string
  epochs :: int
  mode :: string
  model :: string
  edge_message_ratio :: real
  neg_sampling_ratio :: real
  hidden_dim :: int

datatype cli_option =
  Device string | Data_path string | Epochs int | Mode string | Model string
  | Edge_message_ratio real | Neg_sampling_ratio real | Hidden_dim int

definition defaults :: args where
  "defaults =
     \<lparr>device = ''cuda:0'', data_path = ''data/WN18.gpickle'', epochs = 500,
      mode = ''disjoint'', model = ''MlpMessage'', edge_message_ratio = 8 / 10,
      neg_sampling_ratio = 1, hidden_dim = 16\<rparr>"

fun set_option :: "cli_option \<Rightarrow> args \<Rightarrow> args" where
  "set_option (Device v) a = a\<lparr>device := v\<rparr>"
| "set_option (Data_path v) a = a\<lparr>data_path := v\<rparr>"
| "set_option (Epochs v) a = a\<lparr>epochs := v\<rparr>"
| "set_option (Mode v) a = a\<lparr>mode := v\<rparr>"
| "set_option (Model v) a = a\<lparr>model := v\<rparr>"
| "set_option (Edge_message_ratio v) a = a\<lparr>edge_message_ratio := v\<rparr>"
| "set_option (Neg_sampling_ratio v) a = a\<lparr>neg_sampling_ratio := v\<rparr>"
| "set_option (Hidden_dim v) a = a\<lparr>hidden_dim := v\<rparr>"

definition arg_parse :: "cli_option list \<Rightarrow> args" where
  "arg_parse argv = fold set_option argv defaults"

section \<open>The training loop\<close>

datatype line =
  Epoch_line int pyfloat pyfloat pyfloat pyfloat
  | Best_line pyfloat pyfloat pyfloat

text \<open>
  The state of \<^verbatim>\<open>train\<close>. The object that \<^verbatim>\<open>model\<close> refers to is at address 0 of the
  heap; \<open>best_model\<close> is an address; \<^verbatim>\<open>copy.deepcopy\<close> puts a new object at the end of the
  heap. \<open>printed\<close> holds the arguments of each \<^verbatim>\<open>print\<close>, in order.
\<close>

record ('m, 'o) train_state =
  heap :: "'m list"
  optimizer :: 'o
  val_max :: pyfloat
  best_model :: nat
  t_accu :: "pyfloat list"
  v_accu :: "pyfloat list"
  e_accu :: "pyfloat list"
  t_accu_sum :: count
  t_accu_cnt :: int
  printed :: "line list"

text \<open>
  The body of the batch loop, lines 135 to 170. \<^verbatim>\<open>batch.to(args.device)\<close> moves the
  batch between devices and is left out. \<^verbatim>\<open>loss.backward()\<close> needs a tensor.
\<close>

definition train_batch ::
  "('m, 'o, 'x) net \<Rightarrow> 'x dataloaders \<Rightarrow> int \<Rightarrow> ('m, 'o) train_state \<Rightarrow> 'x batch
     \<Rightarrow> py_error + ('m, 'o) train_state"
where
  "train_batch env dataloaders epoch st b =
     (let heap1 = (heap st)[0 := set_training env True (heap st ! 0)] in
      case forward env (heap1 ! 0) b of Inl e \<Rightarrow> Inl e
      | Inr pred \<Rightarrow>
      (case count_keys pred (edge_label b) (t_accu_sum st, t_accu_cnt st) of Inl e \<Rightarrow> Inl e
      | Inr (s, c) \<Rightarrow>
      (case loss pred (edge_label b) of Inl e \<Rightarrow> Inl e
      | Inr (IntLoss i) \<Rightarrow> Inl AttributeError
      | Inr (TensorLoss lv) \<Rightarrow>
      (case optimizer_step env (optimizer st) (heap1 ! 0) b of (opt', m') \<Rightarrow>
      (case test env (heap1[0 := m']) 0 (filter (\<lambda>(key, val). key \<noteq> ''train'') dataloaders) of
        Inl e \<Rightarrow> Inl e
      | Inr (heap3, accs0) \<Rightarrow>
      (case truediv s c of Inl e \<Rightarrow> Inl e
      | Inr tr \<Rightarrow>
      (let accs = dict_set accs0 ''train'' tr in
       case dict_get accs ''train'' of Inl e \<Rightarrow> Inl e
       | Inr a_train \<Rightarrow>
       (case dict_get accs ''val'' of Inl e \<Rightarrow> Inl e
       | Inr a_val \<Rightarrow>
       (case dict_get accs ''test'' of Inl e \<Rightarrow> Inl e
       | Inr a_test \<Rightarrow>
       (let st1 = st\<lparr>heap := heap3, optimizer := opt',
                      t_accu := t_accu st @ [a_train],
                      v_accu := v_accu st @ [a_val],
                      e_accu := e_accu st @ [a_test],
                      t_accu_sum := s, t_accu_cnt := c,
                      printed := printed st @ [Epoch_line epoch lv a_train a_val a_test]\<rparr>
        in Inr (if fl_less (val_max st) a_val
                then st1\<lparr>val_max := a_val, best_model := length heap3,
                         heap := heap3 @ [heap3 ! 0]\<rparr>
                else st1)))))))))))"

fun train_batches ::
  "('m, 'o, 'x) net \<Rightarrow> 'x dataloaders \<Rightarrow> int \<Rightarrow> ('m, 'o) train_state \<Rightarrow> 'x batch list
     \<Rightarrow> py_error + ('m, 'o) train_state"
where
  "train_batches env dataloaders epoch st [] = Inr st"
| "train_batches env dataloaders epoch st (b # bs) =
     (case train_batch env dataloaders epoch st b of Inl e \<Rightarrow> Inl e
      | Inr st' \<Rightarrow> train_batches env dataloaders epoch st' bs)"

fun train_epochs ::
  "('m, 'o, 'x) net \<Rightarrow> 'x dataloaders \<Rightarrow> ('m, 'o) train_state \<Rightarrow> int list
     \<Rightarrow> py_error + ('m, 'o) train_state"
where
  "train_epochs env dataloaders st [] = Inr st"
| "train_epochs env dataloaders st (epoch # rest) =
     (case dict_get dataloaders ''train'' of Inl e \<Rightarrow> Inl e
      | Inr loader \<Rightarrow>
          (case train_batches env dataloaders epoch
                  (st\<lparr>t_accu_sum := PyInt 0, t_accu_cnt := 0\<rparr>) loader of
             Inl e \<Rightarrow> Inl e
           | Inr st' \<Rightarrow> train_epochs env dataloaders st' rest))"

definition init_state :: "'m \<Rightarrow> 'o \<Rightarrow> ('m, 'o) train_state" where
  \<comment> \<open>\<^verbatim>\<open>val_max = 0\<close>, \<^verbatim>\<open>best_model = model\<close>, three empty lists.\<close>
  "init_state m opt =
     \<lparr>heap = [m], optimizer = opt, val_max = Fl 0, best_model = 0,
      t_accu = [], v_accu = [], e_accu = [],
      t_accu_sum = PyInt 0, t_accu_cnt = 0, printed = []\<rparr>"

definition best_eval ::
  "('m, 'o, 'x) net \<Rightarrow> 'x dataloaders \<Rightarrow> ('m, 'o) train_state \<Rightarrow> py_error + ('m, 'o) train_state"
where
  \<comment> \<open>Lines 172 to 174, after the loops.\<close>
  "best_eval env dataloaders st =
     (case test env (heap st) (best_model st) dataloaders of Inl e \<Rightarrow> Inl e
      | Inr (heap', accs) \<Rightarrow>
      (case dict_get accs ''train'' of Inl e \<Rightarrow> Inl e
       | Inr a_train \<Rightarrow>
       (case dict_get accs ''val'' of Inl e \<Rightarrow> Inl e
       | Inr a_val \<Rightarrow>
       (case dict_get accs ''test'' of Inl e \<Rightarrow> Inl e
       | Inr a_test \<Rightarrow>
           Inr (st\<lparr>heap := heap', printed := printed st @ [Best_line a_train a_val a_test]\<rparr>)))))"

definition train ::
  "('m, 'o, 'x) net \<Rightarrow> 'm \<Rightarrow> 'x dataloaders \<Rightarrow> 'o \<Rightarrow> args
     \<Rightarrow> py_error + ('m, 'o) train_state"
where
  \<comment> \<open>\<^verbatim>\<open>range(1, args.epochs)\<close> is the list \<open>[1..epochs args - 1]\<close>.\<close>
  "train env m dataloaders opt a =
     (case train_epochs env dataloaders (init_state m opt) [1..epochs a - 1] of Inl e \<Rightarrow> Inl e
      | Inr st \<Rightarrow> best_eval env dataloaders st)"

section \<open>The graph transformer\<close>

text \<open>
  The raw graph is a directed multigraph: its nodes, and its edges in the order in which
  \<^verbatim>\<open>G.edges\<close> yields them, each with its key and its \<^verbatim>\<open>e_label\<close> attribute (\<open>None\<close> when
  the attribute is missing). A label is a scalar with an \<^verbatim>\<open>item\<close> method (a zero-dimensional
  tensor, a numpy integer) or a plain Python int.
\<close>

datatype e_label_val = Item_label int | Int_label int

record 'v raw_edge =
  src :: 'v
  dst :: 'v
  edge_key :: int
  e_label :: "e_label_val option"

record 'v raw_graph =
  nodes :: "'v list"
  edges :: "'v raw_edge list"

record 'v h_node =
  node :: 'v
  node_type :: string
  node_feature :: "real list"

record 'v h_edge =
  h_src :: 'v
  h_dst :: 'v
  h_key :: nat
  edge_feature :: "real list"
  edge_type :: string

record 'v h_graph =
  h_nodes :: "'v h_node list"
  h_edges :: "'v h_edge list"

fun add_node :: "'v h_node list \<Rightarrow> 'v h_node \<Rightarrow> 'v h_node list" where
  \<comment> \<open>\<^verbatim>\<open>H.add_node\<close>: a node that is already there has its attributes replaced.\<close>
  "add_node [] n = [n]"
| "add_node (n' # ns) n = (if node n' = node n then n # ns else n' # add_node ns n)"

definition new_edge_key :: "'v h_edge list \<Rightarrow> 'v \<Rightarrow> 'v \<Rightarrow> nat" where
  \<comment> \<open>\<^verbatim>\<open>H.add_edge\<close> without a key takes the number of edges already between the two nodes.\<close>
  "new_edge_key es u v = length (filter (\<lambda>e. h_src e = u \<and> h_dst e = v) es)"

definition add_edge :: "'v h_graph \<Rightarrow> 'v \<Rightarrow> 'v \<Rightarrow> real list \<Rightarrow> string \<Rightarrow> 'v h_graph" where
  \<comment> \<open>Both end points of an edge of \<^verbatim>\<open>G\<close> are nodes of \<^verbatim>\<open>G\<close>, hence of \<^verbatim>\<open>H\<close> already.\<close>
  "add_edge H u v e_feat t =
     H\<lparr>h_edges := h_edges H @
          [\<lparr>h_src = u, h_dst = v, h_key = new_edge_key (h_edges H) u v,
            edge_feature = e_feat, edge_type = t\<rparr>]\<rparr>"

definition label_val :: "e_label_val \<Rightarrow> int" where
  "label_val l = (case l of Item_label i \<Rightarrow> i | Int_label i \<Rightarrow> i)"

definition set_one :: "real list \<Rightarrow> int \<Rightarrow> py_error + real list" where
  \<comment> \<open>\<^verbatim>\<open>e_feat[l] = 1.\<close>: a negative index counts from the end.\<close>
  "set_one xs i =
     (let n = int (length xs) in
      if 0 \<le> i \<and> i < n then Inr (xs[nat i := 1])
      else if - n \<le> i \<and> i < 0 then Inr (xs[nat (n + i) := 1])
      else Inl IndexError)"

fun str_nat :: "nat \<Rightarrow> string" where
  "str_nat n =
     (if n < 10 then [''0123456789'' ! n]
      else str_nat (n div 10) @ [''0123456789'' ! (n mod 10)])"

declare str_nat.simps [simp del]

definition str_int :: "int \<Rightarrow> string" where
  \<comment> \<open>\<^verbatim>\<open>str\<close> of a Python int.\<close>
  "str_int i = (if i < 0 then CHR ''-'' # str_nat (nat (- i)) else str_nat (nat i))"

definition item_str :: "e_label_val \<Rightarrow> py_error + string" where
  \<comment> \<open>\<^verbatim>\<open>str(l.item())\<close>: a Python int has no attribute \<^verbatim>\<open>item\<close>.\<close>
  "item_str l = (case l of Item_label i \<Rightarrow> Inr (str_int i) | Int_label i \<Rightarrow> Inl AttributeError)"

fun add_edges :: "nat \<Rightarrow> 'v raw_edge list \<Rightarrow> 'v h_graph \<Rightarrow> py_error + 'v h_graph" where
  "add_edges num_edge_types [] H = Inr H"
| "add_edges num_edge_types (e # es) H =
     (case e_label e of None \<Rightarrow> Inl KeyError
      | Some l \<Rightarrow>
          (case set_one (replicate num_edge_types 0) (label_val l) of Inl err \<Rightarrow> Inl err
           | Inr e_feat \<Rightarrow>
               (case item_str l of Inl err \<Rightarrow> Inl err
                | Inr t \<Rightarrow> add_edges num_edge_types es (add_edge H (src e) (dst e) e_feat t))))"

definition WN_transform :: "'v raw_graph \<Rightarrow> nat \<Rightarrow> nat \<Rightarrow> py_error + 'v h_graph" where
  "WN_transform G num_edge_types input_dim =
     add_edges num_edge_types (edges G)
       \<lparr>h_nodes = fold (\<lambda>v ns. add_node ns
                     \<lparr>node = v, node_type = ''n1'', node_feature = replicate input_dim 1\<rparr>)
                   (nodes G) [],
        h_edges = []\<rparr>"

section \<open>The main program\<close>

text \<open>
  What \<^verbatim>\<open>main\<close> takes from the libraries is a parameter: reading the graph file, the
  two \<^verbatim>\<open>HeteroGraph\<close> constructions, the dataset with its split and the three loaders of
  batch size one, the constructor of the network from the graph, a hidden size and a dropout
  rate, its move to a device, and the Adam optimizer with its learning rate and weight decay.
  A library call that draws random numbers is a function of its arguments here.
\<close>

record ('h, 'm, 'o, 'x) lib =
  read_gpickle :: "string \<Rightarrow> py_error + int raw_graph"
  HeteroGraph :: "int h_graph \<Rightarrow> py_error + 'h"
  split_loaders :: "'h \<Rightarrow> string \<Rightarrow> py_error + 'x batch list \<times> 'x batch list \<times> 'x batch list"
  HeteroNet :: "'h \<Rightarrow> nat \<Rightarrow> real \<Rightarrow> py_error + 'm"
  to_device :: "'m \<Rightarrow> string \<Rightarrow> py_error + 'm"
  Adam :: "'m \<Rightarrow> real \<Rightarrow> real \<Rightarrow> 'o"
  layers :: "('m, 'o, 'x) net"

fun collect_labels :: "'v raw_edge list \<Rightarrow> e_label_val list \<Rightarrow> py_error + e_label_val list" where
  \<comment> \<open>Lines 211 to 214; \<^verbatim>\<open>l in labels\<close> compares by value.\<close>
  "collect_labels [] labels = Inr labels"
| "collect_labels (e # es) labels =
     (case e_label e of None \<Rightarrow> Inl KeyError
      | Some l \<Rightarrow>
          collect_labels es
            (if label_val l \<in> set (map label_val labels) then labels else labels @ [l]))"

definition build_model :: "('h, 'm, 'o, 'x) lib \<Rightarrow> args \<Rightarrow> 'h \<Rightarrow> py_error + 'm" where
  \<comment> \<open>Lines 259 and 260.\<close>
  "build_model lib a hete =
     (let hidden_size = 32 in
      case HeteroNet lib hete hidden_size (2 / 10) of Inl e \<Rightarrow> Inl e
      | Inr m \<Rightarrow> to_device lib m (device a))"

definition main_args ::
  "('h, 'm, 'o, 'x) lib \<Rightarrow> args \<Rightarrow> py_error + ('m, 'o) train_state"
where
  \<comment> \<open>\<^verbatim>\<open>main\<close> after its first line. Of its own prints only the two look-ups that can
      raise are kept: \<^verbatim>\<open>G.nodes[0]\<close> and \<^verbatim>\<open>G[0][5871]\<close>.\<close>
  "main_args lib a =
     (case read_gpickle lib (data_path a) of Inl e \<Rightarrow> Inl e
      | Inr G \<Rightarrow>
      if 0 \<notin> set (nodes G) then Inl KeyError
      else if \<not> list_ex (\<lambda>e. src e = 0 \<and> dst e = 5871) (edges G) then Inl KeyError
      else
      (case collect_labels (edges G) [] of Inl e \<Rightarrow> Inl e
      | Inr labels \<Rightarrow>
      (case WN_transform G (length labels) 5 of Inl e \<Rightarrow> Inl e
      | Inr H \<Rightarrow>
      (case HeteroGraph lib H of Inl e \<Rightarrow> Inl e
      | Inr hete \<Rightarrow>
      (case split_loaders lib hete (mode a) of Inl e \<Rightarrow> Inl e
      | Inr (train_loader, val_loader, test_loader) \<Rightarrow>
      (case build_model lib a hete of Inl e \<Rightarrow> Inl e
      | Inr m \<Rightarrow>
          train (layers lib) m
            [(''train'', train_loader), (''val'', val_loader), (''test'', test_loader)]
            (Adam lib m (1 / 1000) (5 / 10000)) a))))))"

definition main ::
  "('h, 'm, 'o, 'x) lib \<Rightarrow> cli_option list \<Rightarrow> py_error + ('m, 'o) train_state"
where
  "main lib argv = main_args lib (arg_parse argv)"

section \<open>The accuracy as the specification words it\<close>

text \<open>
  The rule of the specification: a probability above one half predicts the label 1, any other
  the label 0; the accuracy is the number of candidate edges whose predicted label is the
  ground truth, over the number of candidate edges, both taken over all relation types.
\<close>

definition predicted :: "real \<Rightarrow> int" where
  "predicted p = (if p > 1 / 2 then 1 else 0)"

definition matches :: "real list \<Rightarrow> int list \<Rightarrow> nat" where
  "matches s yk = length (filter (\<lambda>(x, t). predicted (sigmoid x) = t) (zip s yk))"

definition total_matches :: "pred \<Rightarrow> labels \<Rightarrow> nat" where
  "total_matches pred y = sum_list (map (\<lambda>(key, s). matches s (the (map_of y key))) pred)"

definition total_candidates :: "pred \<Rightarrow> nat" where
  "total_candidates pred = sum_list (map (\<lambda>(key, s). length s) pred)"

definition shapes_agree :: "pred \<Rightarrow> labels \<Rightarrow> bool" where
  \<comment> \<open>Every relation type of the prediction has a label tensor, of the size of its scores.\<close>
  "shapes_agree pred y =
     list_all (\<lambda>(key, s). case map_of y key of None \<Rightarrow> False | Some yk \<Rightarrow> length yk = length s)
       pred"

section \<open>The best model as the specification words it\<close>

text \<open>
  The running maximum of the validation accuracies starts at 0; a value improves on it when
  it is strictly greater, in the order of the floats, where \<^verbatim>\<open>nan\<close> compares false.
  \<open>improvements\<close> marks the logging steps whose validation accuracy exceeds the running
  maximum of the steps before.
\<close>

definition fl_max :: "pyfloat \<Rightarrow> pyfloat \<Rightarrow> pyfloat" where
  "fl_max a b = (if fl_less a b then b else a)"

definition running_max :: "pyfloat list \<Rightarrow> pyfloat" where
  "running_max vs = foldl fl_max (Fl 0) vs"

definition improvements :: "pyfloat list \<Rightarrow> bool list" where
  "improvements vs = map (\<lambda>i. fl_less (running_max (take i vs)) (vs ! i)) [0..<length vs]"

text \<open>
  What the state of \<^verbatim>\<open>train\<close> is claimed to satisfy, and what a run is observed by: the
  validation accuracies, the objects of the heap and the address of the best model.
\<close>

definition tracked :: "('m, 'o) train_state \<Rightarrow> bool" where
  "tracked st =
     (val_max st = running_max (v_accu st)
      \<and> length (heap st) = Suc (length (filter (\<lambda>b. b) (improvements (v_accu st))))
      \<and> best_model st =
          (if True \<in> set (improvements (v_accu st)) then length (heap st) - 1 else 0))"

definition outcome :: "('m, 'o) train_state \<Rightarrow> pyfloat list \<times> 'm list \<times> nat" where
  "outcome st = (v_accu st, heap st, best_model st)"

section \<open>What a run prints\<close>

text \<open>
  The epoch that a printed line reports (the final line reports none), and the batches that
  the loader of the training split yields.
\<close>

fun line_epoch :: "line \<Rightarrow> int option" where
  "line_epoch (Epoch_line epoch l tr va te) = Some epoch"
| "line_epoch (Best_line tr va te) = None"

definition train_loader :: "'x dataloaders \<Rightarrow> 'x batch list" where
  "train_loader dls = (case map_of dls ''train'' of None \<Rightarrow> [] | Some loader \<Rightarrow> loader)"

section \<open>The loss as the specification words it\<close>

text \<open>
  For one relation type: the sigmoid is applied to each score, and the binary cross-entropy
  with logits, which applies the sigmoid once more, is averaged over the candidate edges.
  The loss is the sum of these values over the relation types.
\<close>

definition double_sigmoid_bce :: "real \<Rightarrow> real \<Rightarrow> real" where
  "double_sigmoid_bce x t =
     - (t * ln (sigmoid (sigmoid x)) + (1 - t) * ln (1 - sigmoid (sigmoid x)))"

definition type_loss :: "real list \<Rightarrow> int list \<Rightarrow> pyfloat" where
  "type_loss s yk =
     (if s = [] then NaN
      else Fl (sum_list (map (\<lambda>(x, t). double_sigmoid_bce x (real_of_int t)) (zip s yk))
               / real (length s)))"

definition fl_sum :: "pyfloat list \<Rightarrow> pyfloat" where
  "fl_sum vs = foldl fl_add (Fl 0) vs"

definition spec_loss :: "pred \<Rightarrow> labels \<Rightarrow> pyfloat" where
  "spec_loss pred y = fl_sum (map (\<lambda>(key, s). type_loss s (the (map_of y key))) pred)"

fun loss_number :: "loss_val \<Rightarrow> pyfloat" where
  "loss_number (IntLoss i) = Fl (real_of_int i)"
| "loss_number (TensorLoss v) = v"

section \<open>The transformed graph as the specification words it\<close>

text \<open>
  A one-hot vector of a given width for a label; what an edge of the raw graph becomes; and
  the assumption of the data model that every label is an integer scalar between 0 and the
  number of edge types.
\<close>

definition one_hot :: "nat \<Rightarrow> int \<Rightarrow> real list \<Rightarrow> bool" where
  "one_hot n i xs = (length xs = n \<and> (\<forall>k<n. xs ! k = (if int k = i then 1 else 0)))"

definition edge_transformed :: "nat \<Rightarrow> 'v raw_edge \<Rightarrow> 'v h_edge \<Rightarrow> bool" where
  "edge_transformed n e he =
     (h_src he = src e \<and> h_dst he = dst e
      \<and> (case e_label e of None \<Rightarrow> False
          | Some l \<Rightarrow> one_hot n (label_val l) (edge_feature he)
                      \<and> edge_type he = str_int (label_val l)))"

definition labels_in_range :: "nat \<Rightarrow> 'v raw_graph \<Rightarrow> bool" where
  "labels_in_range n G =
     list_all (\<lambda>e. case e_label e of Some (Item_label i) \<Rightarrow> 0 \<le> i \<and> i < int n | _ \<Rightarrow> False)
       (edges G)"

text \<open>
  A label that has the \<^verbatim>\<open>item\<close> method.
\<close>

definition has_item :: "e_label_val option \<Rightarrow> bool" where
  "has_item l = (case l of Some (Item_label i) \<Rightarrow> True | _ \<Rightarrow> False)"

section \<open>The options that reach the program\<close>

text \<open>
  \<open>wired\<close> tells the options other than \<^verbatim>\<open>--model\<close> and \<^verbatim>\<open>--hidden_dim\<close>; two argument
  records are \<open>same_wired\<close> when they agree on every field but these two.
\<close>

fun wired :: "cli_option \<Rightarrow> bool" where
  "wired (Model v) = False"
| "wired (Hidden_dim v) = False"
| "wired opt = True"

definition same_wired :: "args \<Rightarrow> args \<Rightarrow> bool" where
  "same_wired a b =
     (device a = device b \<and> data_path a = data_path b \<and> epochs a = epochs b
      \<and> mode a = mode b \<and> edge_message_ratio a = edge_message_ratio b
      \<and> neg_sampling_ratio a = neg_sampling_ratio b)"

section \<open>Example inputs\<close>

text \<open>
  A network whose forward pass returns the batch's own scores under the single relation
  type \<^verbatim>\<open>"0"\<close>, and a batch with one candidate edge that it classifies correctly.
\<close>

definition score_net :: "(unit, unit, real list) net" where
  "score_net = \<lparr>forward = (\<lambda>m b. Inr [(''0'', inputs b)]),
                set_training = (\<lambda>t m. m),
                optimizer_step = (\<lambda>opt m b. (opt, m))\<rparr>"

definition hit :: "real list batch" where
  "hit = \<lparr>inputs = [1], edge_label = [(''0'', [1])]\<rparr>"





text \<open>
  A network whose value is the number of optimizer steps taken, and which classifies six of
  the ten candidate edges of the batch below correctly before its third step and seven from
  then on: the validation accuracies of three steps are 0.6, 0.6 and 0.7.
\<close>

definition staged_net :: "(nat, unit, real list) net" where
  "staged_net =
     \<lparr>forward = (\<lambda>m b. Inr [(''0'', map (\<lambda>t. if t < (if m < 3 then 6 else 7) then 1 else - 1)
                                       (inputs b))]),
      set_training = (\<lambda>t m. m),
      optimizer_step = (\<lambda>opt m b. (opt, Suc m))\<rparr>"

definition exam :: "real list batch" where
  "exam = \<lparr>inputs = [0, 1, 2, 3, 4, 5, 6, 7, 8, 9],
           edge_label = [(''0'', [1, 1, 1, 1, 1, 1, 1, 1, 1, 1])]\<rparr>"

definition staged_loaders :: "real list dataloaders" where
  "staged_loaders = [(''train'', [exam]), (''val'', [exam]), (''test'', [exam])]"

text \<open>
  A batch whose single candidate edge the network above always classifies wrongly.
\<close>

definition miss :: "real list batch" where
  "miss = \<lparr>inputs = [0], edge_label = [(''0'', [0])]\<rparr>"

definition miss_loaders :: "real list dataloaders" where
  "miss_loaders = [(''train'', [miss]), (''val'', [miss]), (''test'', [miss])]"

text \<open>
  Loaders whose training split yields two batches.
\<close>

definition two_loaders :: "real list dataloaders" where
  "two_loaders = [(''train'', [exam, exam]), (''val'', [exam]), (''test'', [exam])]"

text \<open>
  The scenario of the specification: two edge labels, one edge with the label 1.
\<close>

definition one_edge :: "int raw_graph" where
  "one_edge = \<lparr>nodes = [0, 5871],
               edges = [\<lparr>src = 0, dst = 5871, edge_key = 0, e_label = Some (Item_label 1)\<rparr>]\<rparr>"

text \<open>
  The same graph with a plain Python int as the label.
\<close>

definition plain_edge :: "int raw_graph" where
  "plain_edge = \<lparr>nodes = [0, 5871],
                 edges = [\<lparr>src = 0, dst = 5871, edge_key = 0, e_label = Some (Int_label 1)\<rparr>]\<rparr>"

text \<open>
  A graph with the two labels 0 and 1, and stand-ins for the libraries: the graph file holds
  that graph, every split yields the batch of ten candidate edges, and the value of a new
  network is its hidden size.
\<close>

definition two_edges :: "int raw_graph" where
  "two_edges = \<lparr>nodes = [0, 5871],
                edges = [\<lparr>src = 0, dst = 5871, edge_key = 0, e_label = Some (Item_label 0)\<rparr>,
                         \<lparr>src = 5871, dst = 0, edge_key = 0, e_label = Some (Item_label 1)\<rparr>]\<rparr>"

definition toy_lib :: "(nat, nat, unit, real list) lib" where
  "toy_lib =
     \<lparr>read_gpickle = (\<lambda>path. Inr two_edges),
      HeteroGraph = (\<lambda>H. Inr (length (h_edges H))),
      split_loaders = (\<lambda>hete edge_train_mode. Inr ([exam], [exam], [exam])),
      HeteroNet = (\<lambda>hete hidden_size dropout. Inr hidden_size),
      to_device = (\<lambda>m dev. Inr m),
      Adam = (\<lambda>m lr weight_decay. ()),
      layers = staged_net\<rparr>"

section \<open>The threshold rule\<close>

lemma sigmoid_gt_half: "(1 / 2 < sigmoid x) = (0 < x)"
proof -
  have "(1 / 2 < 1 / (1 + exp (- x))) = (1 + exp (- x) < 2)"
    by (simp add: field_simps add_pos_pos)
  also have "\<dots> = (exp (- x) < exp 0)" by simp
  also have "\<dots> = (0 < x)" by (simp only: exp_less_cancel_iff) simp
  finally show ?thesis by (simp add: sigmoid_def)
qed

lemma length_put: "length (put a idx v) = length a"
  unfolding put_def by (induction idx arbitrary: a) auto

lemma nth_put: "i < length a \<Longrightarrow> put a idx v ! i = (if i \<in> set idx then v else a ! i)"
  unfolding put_def
proof (induction idx arbitrary: a)
  case Nil
  then show ?case by simp
next
  case (Cons j idx)
  then show ?case by (auto simp: nth_list_update)
qed

lemma set_np_where: "set (np_where P p) = {i. i < length p \<and> P (p ! i)}"
  by (auto simp: np_where_def)

lemma length_pred_label: "length (pred_label p) = length p"
  by (simp add: pred_label_def length_put)

lemma nth_pred_label:
  "i < length p \<Longrightarrow> pred_label p ! i = (if p ! i > 1 / 2 then 1 else 0)"
  by (simp add: pred_label_def nth_put length_put set_np_where)

lemma pred_label_map: "pred_label p = map (\<lambda>x. if x > 1 / 2 then 1 else 0) p"
  by (rule nth_equalityI) (simp_all add: length_pred_label nth_pred_label)

lemma pred_label_sigmoid: "pred_label (map sigmoid s) = map (\<lambda>x. if 0 < x then 1 else 0) s"
  unfolding pred_label_map by (simp only: map_map o_def sigmoid_gt_half)

lemma wrap64_id: "- (2 ^ 63) \<le> x \<Longrightarrow> x < 2 ^ 63 \<Longrightarrow> wrap64 x = x"
  unfolding wrap64_def by (simp add: mod_pos_pos_trivial)

lemma count_keys_step:
  "count_keys ((key, s) # rest) y (acc, num) =
     (case dict_get y key of Inl e \<Rightarrow> Inl e
      | Inr yk \<Rightarrow>
          (case np_eq (map (\<lambda>x. if 0 < x then 1 else 0) s) yk of Inl e \<Rightarrow> Inl e
           | Inr bs \<Rightarrow> count_keys rest y (iadd_np acc (np_sum bs), num + int (length s))))"
  by (simp add: pred_label_sigmoid Let_def split: sum.splits)

lemmas count_eval = count_keys_step dict_get_def np_eq_def np_sum_def iadd_np_def wrap64_id

section \<open>Evaluation over several batches\<close>

text \<open>
  C1. The evaluation routine is claimed to accumulate both the number of correct
  predictions and the number of candidate edges over all batches of a split, so that the
  reported accuracy lies between 0 and 1. On a split of two batches with one candidate
  edge each, both classified correctly, the routine counts two correct predictions but only
  the one candidate edge of the last batch, and reports the accuracy 2.
\<close>

theorem test_two_batches_reports_two:
  "test score_net [()] 0 [(''val'', [hit, hit])] = Inr ([()], [(''val'', Fl 2)])"
  by (simp add: test_def score_net_def hit_def count_eval del: count_keys.simps(2))

section \<open>Counting matches\<close>

lemma matches_le: "matches s yk \<le> length s"
  unfolding matches_def
  by (rule order_trans [OF length_filter_le]) simp

lemma total_matches_le: "total_matches pred y \<le> total_candidates pred"
  unfolding total_matches_def total_candidates_def
  by (induction pred) (auto simp: matches_le add_mono)



section \<open>One step of training\<close>

lemma length_test_heap: "test env h a dls = Inr (h', accs) \<Longrightarrow> length h' = length h"
  by (auto simp: test_def Let_def split: sum.splits)

lemma train_batch_Inr:
  assumes "train_batch env dls ep st b = Inr st'"
  obtains pred s c lv opt' m' heap3 accs0 tr a_train a_val a_test where
    "forward env ((heap st)[0 := set_training env True (heap st ! 0)] ! 0) b = Inr pred"
    "count_keys pred (edge_label b) (t_accu_sum st, t_accu_cnt st) = Inr (s, c)"
    "loss pred (edge_label b) = Inr (TensorLoss lv)"
    "optimizer_step env (optimizer st) ((heap st)[0 := set_training env True (heap st ! 0)] ! 0) b = (opt', m')"
    "test env ((heap st)[0 := m']) 0 (filter (\<lambda>(key, val). key \<noteq> ''train'') dls) = Inr (heap3, accs0)"
    "truediv s c = Inr tr"
    "dict_get (dict_set accs0 ''train'' tr) ''train'' = Inr a_train"
    "dict_get (dict_set accs0 ''train'' tr) ''val'' = Inr a_val"
    "dict_get (dict_set accs0 ''train'' tr) ''test'' = Inr a_test"
    "st' = (let st1 = st\<lparr>heap := heap3, optimizer := opt',
                      t_accu := t_accu st @ [a_train],
                      v_accu := v_accu st @ [a_val],
                      e_accu := e_accu st @ [a_test],
                      t_accu_sum := s, t_accu_cnt := c,
                      printed := printed st @ [Epoch_line ep lv a_train a_val a_test]\<rparr>
        in (if fl_less (val_max st) a_val
                then st1\<lparr>val_max := a_val, best_model := length heap3,
                         heap := heap3 @ [heap3 ! 0]\<rparr>
                else st1))"
  using assms unfolding train_batch_def Let_def
  by (auto split: sum.splits prod.splits loss_val.splits simp: list_update_overwrite)

section \<open>The accuracy of one batch\<close>




lemma loss_keys_tensor:
  assumes "shapes_agree pred y" "pred \<noteq> []"
  shows "\<exists>v. loss_keys pred y l = Inr (TensorLoss v)"
  using assms
proof (induction pred arbitrary: l)
  case Nil
  then show ?case by simp
next
  case (Cons ks rest)
  obtain key s where ks: "ks = (key, s)" by (cases ks)
  from Cons.prems(1) obtain yk where yk: "map_of y key = Some yk" "length yk = length s"
    and rest: "shapes_agree rest y"
    by (auto simp: shapes_agree_def ks split: option.splits)
  obtain v where v: "BCEWithLogitsLoss (map sigmoid s) (map real_of_int yk) = Inr v"
    using yk(2) by (cases "s = []") (auto simp: BCEWithLogitsLoss_def)
  have step: "loss_keys (ks # rest) y l = loss_keys rest y (loss_add l v)"
    by (simp add: ks Let_def dict_get_def yk v)
  show ?case
  proof (cases "rest = []")
    case True
    then show ?thesis unfolding step by (cases l) simp_all
  next
    case False
    then show ?thesis unfolding step using Cons.IH [OF rest] by simp
  qed
qed

lemma loss_tensor:
  "shapes_agree pred y \<Longrightarrow> pred \<noteq> [] \<Longrightarrow> \<exists>v. loss pred y = Inr (TensorLoss v)"
  unfolding loss_def by (rule loss_keys_tensor)






section \<open>Splits without candidate edges\<close>





section \<open>Tracking the best model\<close>

lemma running_max_snoc: "running_max (vs @ [v]) = fl_max (running_max vs) v"
  by (simp add: running_max_def)

lemma improvements_snoc:
  "improvements (vs @ [v]) = improvements vs @ [fl_less (running_max vs) v]"
  by (simp add: improvements_def nth_append)

lemma train_batch_step:
  assumes "train_batch env dls ep st b = Inr st'"
  shows "\<exists>v lv tr te h3. v_accu st' = v_accu st @ [v]
      \<and> printed st' = printed st @ [Epoch_line ep lv tr v te]
      \<and> length h3 = length (heap st)
      \<and> val_max st' = fl_max (val_max st) v
      \<and> heap st' = (if fl_less (val_max st) v then h3 @ [h3 ! 0] else h3)
      \<and> best_model st' = (if fl_less (val_max st) v then length (heap st) else best_model st)"
proof -
  obtain pred s c lv opt' m' heap3 accs0 tr a_train a_val a_test where
    t: "test env ((heap st)[0 := m']) 0 (filter (\<lambda>(key, val). key \<noteq> ''train'') dls) = Inr (heap3, accs0)"
    and st': "st' = (let st1 = st\<lparr>heap := heap3, optimizer := opt',
                      t_accu := t_accu st @ [a_train],
                      v_accu := v_accu st @ [a_val],
                      e_accu := e_accu st @ [a_test],
                      t_accu_sum := s, t_accu_cnt := c,
                      printed := printed st @ [Epoch_line ep lv a_train a_val a_test]\<rparr>
        in (if fl_less (val_max st) a_val
                then st1\<lparr>val_max := a_val, best_model := length heap3,
                         heap := heap3 @ [heap3 ! 0]\<rparr>
                else st1))"
    by (rule train_batch_Inr [OF assms]) blast
  have len: "length heap3 = length (heap st)"
    using length_test_heap [OF t] by simp
  show ?thesis
    apply (rule exI [of _ a_val], rule exI [of _ lv], rule exI [of _ a_train],
           rule exI [of _ a_test], rule exI [of _ heap3])
    using len by (simp add: st' Let_def fl_max_def)
qed

lemma tracked_init: "tracked (init_state m opt)"
  by (simp add: tracked_def init_state_def running_max_def improvements_def)

lemma tracked_counters [simp]:
  "tracked (st\<lparr>t_accu_sum := s, t_accu_cnt := c\<rparr>) = tracked st"
  by (simp add: tracked_def)

lemma tracked_step:
  assumes "tracked st" "train_batch env dls ep st b = Inr st'"
  shows "tracked st'"
proof -
  obtain v lv tr te h3 where
    v: "v_accu st' = v_accu st @ [v]"
    and len: "length h3 = length (heap st)"
    and vm: "val_max st' = fl_max (val_max st) v"
    and hp: "heap st' = (if fl_less (val_max st) v then h3 @ [h3 ! 0] else h3)"
    and bm: "best_model st' = (if fl_less (val_max st) v then length (heap st) else best_model st)"
    using train_batch_step [OF assms(2)] by blast
  from assms(1) have i1: "val_max st = running_max (v_accu st)"
    and i2: "length (heap st) = Suc (length (filter (\<lambda>b. b) (improvements (v_accu st))))"
    and i3: "best_model st =
          (if True \<in> set (improvements (v_accu st)) then length (heap st) - 1 else 0)"
    by (simp_all add: tracked_def)
  show ?thesis
    unfolding tracked_def v running_max_snoc improvements_snoc
    using i1 i2 i3 vm hp bm len by auto
qed

lemma tracked_batches:
  "tracked st \<Longrightarrow> train_batches env dls ep st bs = Inr st' \<Longrightarrow> tracked st'"
proof (induction bs arbitrary: st)
  case Nil
  then show ?case by simp
next
  case (Cons b bs)
  then show ?case
    by (auto split: sum.splits dest: tracked_step)
qed

lemma tracked_epochs:
  "tracked st \<Longrightarrow> train_epochs env dls st es = Inr st' \<Longrightarrow> tracked st'"
proof (induction es arbitrary: st)
  case Nil
  then show ?case by simp
next
  case (Cons e es)
  from Cons.prems(2) obtain loader st1 where
    b: "train_batches env dls e (st\<lparr>t_accu_sum := PyInt 0, t_accu_cnt := 0\<rparr>) loader = Inr st1"
    and r: "train_epochs env dls st1 es = Inr st'"
    by (auto split: sum.splits)
  have "tracked (st\<lparr>t_accu_sum := PyInt 0, t_accu_cnt := 0\<rparr>)"
    using Cons.prems(1) by simp
  then have "tracked st1" using b by (rule tracked_batches)
  then show ?case using r by (rule Cons.IH)
qed

lemma best_eval_Inr:
  assumes "best_eval env dls st = Inr st'"
  shows "\<exists>h accs tr va te. test env (heap st) (best_model st) dls = Inr (h, accs)
     \<and> dict_get accs ''train'' = Inr tr \<and> dict_get accs ''val'' = Inr va
     \<and> dict_get accs ''test'' = Inr te
     \<and> st' = st\<lparr>heap := h, printed := printed st @ [Best_line tr va te]\<rparr>"
  using assms unfolding best_eval_def by (auto split: sum.splits prod.splits)

lemma tracked_best_eval:
  assumes "tracked st" "best_eval env dls st = Inr st'"
  shows "tracked st'"
proof -
  obtain h accs tr va te where t: "test env (heap st) (best_model st) dls = Inr (h, accs)"
    and st': "st' = st\<lparr>heap := h, printed := printed st @ [Best_line tr va te]\<rparr>"
    using best_eval_Inr [OF assms(2)] by blast
  have "length h = length (heap st)" using length_test_heap [OF t] .
  with assms(1) show ?thesis by (simp add: tracked_def st')
qed

lemma tracked_train:
  assumes "train env m dls opt a = Inr st"
  shows "tracked st"
proof -
  from assms obtain st1 where e: "train_epochs env dls (init_state m opt) [1..epochs a - 1] = Inr st1"
    and b: "best_eval env dls st1 = Inr st"
    by (auto simp: train_def split: sum.splits)
  show ?thesis
    using tracked_best_eval [OF tracked_epochs [OF tracked_init e] b] .
qed

lemma staged_loss:
  "\<exists>lv. loss [(''0'', [1, 1, 1, 1, 1, 1, - 1, - 1, - 1, - 1])]
            [(''0'', [1, 1, 1, 1, 1, 1, 1, 1, 1, 1])] = Inr (TensorLoss lv)"
  by (rule loss_tensor) (simp_all add: shapes_agree_def)

lemma staged_run:
  "map_sum id outcome (train staged_net 0 staged_loaders () (defaults\<lparr>epochs := 4\<rparr>)) =
     Inr ([Fl (6 / 10), Fl (6 / 10), Fl (7 / 10)], [3, 1, 3], 2)"
proof -
  obtain lv where lv: "loss [(''0'', [1, 1, 1, 1, 1, 1, - 1, - 1, - 1, - 1])]
            [(''0'', [1, 1, 1, 1, 1, 1, 1, 1, 1, 1])] = Inr (TensorLoss lv)"
    using staged_loss by blast
  show ?thesis
    by (simp add: train_def train_batch_def best_eval_def test_def staged_net_def exam_def
        staged_loaders_def init_state_def outcome_def lv count_eval Let_def upto_rec1
        del: count_keys.simps(2))
qed

lemma improvements_scenario:
  "improvements [Fl (6 / 10), Fl (6 / 10), Fl (7 / 10)] = [True, False, True]"
  by (simp add: improvements_def running_max_def fl_max_def upt_rec)

text \<open>
  C3, as stated: \<^verbatim>\<open>best_model\<close> is replaced by a deep copy exactly when the validation
  accuracy strictly exceeds the running maximum, and for the validation accuracies
  0.6, 0.6, 0.7 the snapshot is updated only after the third value. The running maximum
  starts at 0, so the first 0.6 already exceeds it: after one step the best model is a new
  object at address 1, and after three steps the heap holds the live model and two
  snapshots, taken at the first and the third step.
\<close>

theorem snapshot_after_first_value:
  "map_sum id outcome (train staged_net 0 staged_loaders () (defaults\<lparr>epochs := 2\<rparr>)) =
     Inr ([Fl (6 / 10)], [1, 1], 1)
   \<and> map_sum id outcome (train staged_net 0 staged_loaders () (defaults\<lparr>epochs := 4\<rparr>)) =
     Inr ([Fl (6 / 10), Fl (6 / 10), Fl (7 / 10)], [3, 1, 3], 2)"
proof -
  obtain lv where lv: "loss [(''0'', [1, 1, 1, 1, 1, 1, - 1, - 1, - 1, - 1])]
            [(''0'', [1, 1, 1, 1, 1, 1, 1, 1, 1, 1])] = Inr (TensorLoss lv)"
    using staged_loss by blast
  have "map_sum id outcome (train staged_net 0 staged_loaders () (defaults\<lparr>epochs := 2\<rparr>)) =
     Inr ([Fl (6 / 10)], [1, 1], 1)"
    by (simp add: train_def train_batch_def best_eval_def test_def staged_net_def exam_def
        staged_loaders_def init_state_def outcome_def lv count_eval Let_def upto_rec1
        del: count_keys.simps(2))
  then show ?thesis using staged_run by simp
qed

text \<open>
  C3, amended: at every logging step \<^verbatim>\<open>best_model\<close> becomes a new object that equals the
  current model exactly when the validation accuracy strictly exceeds \<^verbatim>\<open>val_max\<close>, which
  then takes that value; otherwise (a tie included) nothing is copied. After a run
  \<^verbatim>\<open>val_max\<close> is the running maximum of the validation accuracies, the heap holds one
  snapshot for each strict improvement, and \<^verbatim>\<open>best_model\<close> is the last of them. For the
  accuracies 0.6, 0.6, 0.7 the improvements are the first and the third value.
\<close>

theorem best_model_copied_on_strict_improvement:
  "(train_batch env dls ep st0 b = Inr st1 \<longrightarrow>
      (\<exists>v h. v_accu st1 = v_accu st0 @ [v] \<and> length h = length (heap st0)
         \<and> val_max st1 = fl_max (val_max st0) v
         \<and> (fl_less (val_max st0) v \<longrightarrow>
               best_model st1 = length (heap st0) \<and> heap st1 = h @ [h ! 0])
         \<and> (\<not> fl_less (val_max st0) v \<longrightarrow>
               best_model st1 = best_model st0 \<and> heap st1 = h)))
   \<and> (train env m dls opt a = Inr st \<longrightarrow>
         val_max st = running_max (v_accu st)
         \<and> length (heap st) = Suc (length (filter (\<lambda>b. b) (improvements (v_accu st))))
         \<and> best_model st =
             (if True \<in> set (improvements (v_accu st)) then length (heap st) - 1 else 0))
   \<and> improvements [Fl (6 / 10), Fl (6 / 10), Fl (7 / 10)] = [True, False, True]"
proof (intro conjI impI)
  assume "train_batch env dls ep st0 b = Inr st1"
  from train_batch_step [OF this] obtain v lv tr te h3 where
    "v_accu st1 = v_accu st0 @ [v]" "length h3 = length (heap st0)"
    "val_max st1 = fl_max (val_max st0) v"
    "heap st1 = (if fl_less (val_max st0) v then h3 @ [h3 ! 0] else h3)"
    "best_model st1 = (if fl_less (val_max st0) v then length (heap st0) else best_model st0)"
    by blast
  then show "\<exists>v h. v_accu st1 = v_accu st0 @ [v] \<and> length h = length (heap st0)
         \<and> val_max st1 = fl_max (val_max st0) v
         \<and> (fl_less (val_max st0) v \<longrightarrow>
               best_model st1 = length (heap st0) \<and> heap st1 = h @ [h ! 0])
         \<and> (\<not> fl_less (val_max st0) v \<longrightarrow>
               best_model st1 = best_model st0 \<and> heap st1 = h)"
    by (intro exI [of _ v] exI [of _ h3]) simp
next
  assume t: "train env m dls opt a = Inr st"
  show "val_max st = running_max (v_accu st)"
    using tracked_train [OF t] by (simp add: tracked_def)
  show "length (heap st) = Suc (length (filter (\<lambda>b. b) (improvements (v_accu st))))"
    using tracked_train [OF t] by (simp add: tracked_def)
  show "best_model st =
      (if True \<in> set (improvements (v_accu st)) then length (heap st) - 1 else 0)"
    using tracked_train [OF t] by (simp add: tracked_def)
next
  show "improvements [Fl (6 / 10), Fl (6 / 10), Fl (7 / 10)] = [True, False, True]"
    by (rule improvements_scenario)
qed

theorem best_model_copied_on_strict_improvement_witness:
  "\<exists>st. train staged_net 0 staged_loaders () (defaults\<lparr>epochs := 4\<rparr>) = Inr st
      \<and> val_max st = Fl (7 / 10) \<and> length (heap st) = 3 \<and> best_model st = 2
      \<and> (\<exists>st1. train_batch staged_net staged_loaders 1 (init_state 0 ()) exam = Inr st1
            \<and> fl_less (val_max (init_state 0 ())) (last (v_accu st1))
            \<and> best_model st1 = 1 \<and> length (heap st1) = 2)"
proof -
  obtain st where st: "train staged_net 0 staged_loaders () (defaults\<lparr>epochs := 4\<rparr>) = Inr st"
    and o: "outcome st = ([Fl (6 / 10), Fl (6 / 10), Fl (7 / 10)], [3, 1, 3], 2)"
    using staged_run
    by (cases "train staged_net 0 staged_loaders () (defaults\<lparr>epochs := 4\<rparr>)") auto
  obtain lv where lv: "loss [(''0'', [1, 1, 1, 1, 1, 1, - 1, - 1, - 1, - 1])]
            [(''0'', [1, 1, 1, 1, 1, 1, 1, 1, 1, 1])] = Inr (TensorLoss lv)"
    using staged_loss by blast
  obtain st1 where st1: "train_batch staged_net staged_loaders 1 (init_state 0 ()) exam = Inr st1"
    and v1: "v_accu st1 = [Fl (6 / 10)]"
    by (simp add: train_batch_def test_def staged_net_def exam_def
        staged_loaders_def init_state_def lv count_eval Let_def
        del: count_keys.simps(2))
  note inst = best_model_copied_on_strict_improvement
    [of staged_net staged_loaders 1 "init_state 0 ()" exam st1 0 "()" "defaults\<lparr>epochs := 4\<rparr>" st]
  from o have va: "v_accu st = [Fl (6 / 10), Fl (6 / 10), Fl (7 / 10)]"
    and hp: "heap st = [3, 1, 3]" and bm: "best_model st = 2"
    by (simp_all add: outcome_def)
  have a: "val_max st = Fl (7 / 10)"
    using inst st by (simp add: va running_max_def fl_max_def)
  have b: "length (heap st) = 3" using hp by simp
  have c: "fl_less (val_max (init_state 0 ())) (last (v_accu st1))"
    by (simp add: v1 init_state_def)
  have d: "best_model st1 = 1 \<and> length (heap st1) = 2"
    using inst st1 v1 c by (auto simp: init_state_def)
  show ?thesis using st a b bm st1 c d by blast
qed

section \<open>The best model without an improvement\<close>

lemma no_improvement:
  assumes "\<forall>v\<in>set vs. \<not> fl_less (Fl 0) v"
  shows "running_max vs = Fl 0 \<and> improvements vs = replicate (length vs) False"
  using assms
proof (induction vs rule: rev_induct)
  case Nil
  then show ?case by (simp add: running_max_def improvements_def)
next
  case (snoc v vs)
  then show ?case
    by (simp add: running_max_snoc improvements_snoc fl_max_def replicate_append_same)
qed

lemma v_accu_best_eval: "best_eval env dls st1 = Inr st \<Longrightarrow> v_accu st = v_accu st1"
  by (drule best_eval_Inr) auto

text \<open>
  C9. \<^verbatim>\<open>best_model\<close> starts as an alias of the live model, not as a copy: in a run in which
  no validation accuracy strictly exceeds 0, the heap still holds the one model object when
  the loops end, \<^verbatim>\<open>best_model\<close> is its address, and the final evaluation is the evaluation
  of that object, the live model after all its optimizer steps.
\<close>

theorem best_model_alias_without_improvement:
  assumes "train env m dls opt a = Inr st"
    and "\<forall>v\<in>set (v_accu st). \<not> fl_less (Fl 0) v"
  shows "best_model (init_state m opt) = 0 \<and> heap (init_state m opt) = [m]
    \<and> (\<exists>st1 h accs. train_epochs env dls (init_state m opt) [1..epochs a - 1] = Inr st1
          \<and> best_model st1 = 0 \<and> length (heap st1) = 1
          \<and> test env (heap st1) 0 dls = Inr (h, accs)
          \<and> heap st = h \<and> best_model st = 0)"
proof -
  from assms(1) obtain st1 where
    e: "train_epochs env dls (init_state m opt) [1..epochs a - 1] = Inr st1"
    and b: "best_eval env dls st1 = Inr st"
    by (auto simp: train_def split: sum.splits)
  have tr: "tracked st1" using tracked_epochs [OF tracked_init e] .
  have v: "v_accu st1 = v_accu st" using v_accu_best_eval [OF b] by simp
  have ni: "improvements (v_accu st1) = replicate (length (v_accu st1)) False"
    using no_improvement [of "v_accu st1"] assms(2) v by simp
  have bm: "best_model st1 = 0" and len: "length (heap st1) = 1"
    using tr unfolding tracked_def ni by simp_all
  obtain h accs tr' va te where t: "test env (heap st1) (best_model st1) dls = Inr (h, accs)"
    and st: "st = st1\<lparr>heap := h, printed := printed st1 @ [Best_line tr' va te]\<rparr>"
    using best_eval_Inr [OF b] by blast
  have "test env (heap st1) 0 dls = Inr (h, accs) \<and> heap st = h \<and> best_model st = 0"
    using t st bm by simp
  with e bm len show ?thesis by (auto simp: init_state_def)
qed

lemma miss_loss: "\<exists>lv. loss [(''0'', [1])] [(''0'', [0])] = Inr (TensorLoss lv)"
  by (rule loss_tensor) (simp_all add: shapes_agree_def)

theorem best_model_alias_without_improvement_witness:
  "\<exists>st. train staged_net 0 miss_loaders () (defaults\<lparr>epochs := 3\<rparr>) = Inr st
      \<and> (\<forall>v\<in>set (v_accu st). \<not> fl_less (Fl 0) v)
      \<and> heap st = [2] \<and> best_model st = 0"
proof -
  obtain lv where lv: "loss [(''0'', [1])] [(''0'', [0])] = Inr (TensorLoss lv)"
    using miss_loss by blast
  have run: "map_sum id outcome (train staged_net 0 miss_loaders () (defaults\<lparr>epochs := 3\<rparr>)) =
     Inr ([Fl 0, Fl 0], [2], 0)"
    by (simp add: train_def train_batch_def best_eval_def test_def staged_net_def miss_def
        miss_loaders_def init_state_def outcome_def lv count_eval Let_def upto_rec1
        del: count_keys.simps(2))
  then obtain st where st: "train staged_net 0 miss_loaders () (defaults\<lparr>epochs := 3\<rparr>) = Inr st"
    and o: "outcome st = ([Fl 0, Fl 0], [2], 0)"
    by (cases "train staged_net 0 miss_loaders () (defaults\<lparr>epochs := 3\<rparr>)") auto
  have nv: "\<forall>v\<in>set (v_accu st). \<not> fl_less (Fl 0) v"
    using o by (simp add: outcome_def)
  have "best_model st = 0"
    using best_model_alias_without_improvement [OF st nv] by blast
  then show ?thesis using st nv o by (auto simp: outcome_def)
qed

section \<open>The lines of a run\<close>

lemma dict_get_set_other: "k' \<noteq> k \<Longrightarrow> dict_get (dict_set d k v) k' = dict_get d k'"
  by (induction d) (auto simp: dict_get_def)

lemma map_fst_dict_set:
  "map fst (dict_set d k v) = (if k \<in> set (map fst d) then map fst d else map fst d @ [k])"
  by (induction d) force+

lemma keys_dict_set: "set (map fst (dict_set d k v)) = insert k (set (map fst d))"
  unfolding map_fst_dict_set by auto

lemma test_splits_keys:
  "test_splits env m dls accs num = Inr accs' \<Longrightarrow>
     set (map fst accs') = set (map fst accs) \<union> set (map fst dls)"
proof (induction dls arbitrary: accs num)
  case Nil
  then show ?case by simp
next
  case (Cons d dls)
  obtain md dl where d: "d = (md, dl)" by (cases d)
  from Cons.prems obtain acc n r where
    "test_splits env m dls (dict_set accs md r) (Some n) = Inr accs'"
    by (auto simp: d split: sum.splits prod.splits option.splits)
  from Cons.IH [OF this] have "set (map fst accs') = insert md (set (map fst accs)) \<union> set (map fst dls)"
    unfolding keys_dict_set .
  then show ?case unfolding d by auto
qed

lemma test_keys:
  assumes "test env h a dls = Inr (h', accs)"
  shows "set (map fst accs) = set (map fst dls)"
proof -
  from assms obtain m where "test_splits env m dls [] None = Inr accs"
    by (auto simp: test_def Let_def split: sum.splits)
  from test_splits_keys [OF this] show ?thesis by simp
qed

lemma train_batch_log:
  assumes "train_batch env dls ep st0 b = Inr st1"
  shows "\<exists>h0 h accs lv tr va te.
      test env h0 0 (filter (\<lambda>(key, val). key \<noteq> ''train'') dls) = Inr (h, accs)
      \<and> set (map fst accs) = set (map fst dls) - {''train''}
      \<and> dict_get accs ''val'' = Inr va \<and> dict_get accs ''test'' = Inr te
      \<and> printed st1 = printed st0 @ [Epoch_line ep lv tr va te]"
proof -
  obtain pred s c lv opt' m' heap3 accs0 tr a_train a_val a_test where
    t: "test env ((heap st0)[0 := m']) 0 (filter (\<lambda>(key, val). key \<noteq> ''train'') dls) = Inr (heap3, accs0)"
    and g1: "dict_get (dict_set accs0 ''train'' tr) ''val'' = Inr a_val"
    and g2: "dict_get (dict_set accs0 ''train'' tr) ''test'' = Inr a_test"
    and st': "st1 = (let st1 = st0\<lparr>heap := heap3, optimizer := opt',
                      t_accu := t_accu st0 @ [a_train],
                      v_accu := v_accu st0 @ [a_val],
                      e_accu := e_accu st0 @ [a_test],
                      t_accu_sum := s, t_accu_cnt := c,
                      printed := printed st0 @ [Epoch_line ep lv a_train a_val a_test]\<rparr>
        in (if fl_less (val_max st0) a_val
                then st1\<lparr>val_max := a_val, best_model := length heap3,
                         heap := heap3 @ [heap3 ! 0]\<rparr>
                else st1))"
    by (rule train_batch_Inr [OF assms]) blast
  have k: "set (map fst accs0) = set (map fst dls) - {''train''}"
    using test_keys [OF t] by force
  have v: "dict_get accs0 ''val'' = Inr a_val" using g1 by (simp add: dict_get_set_other)
  have e: "dict_get accs0 ''test'' = Inr a_test" using g2 by (simp add: dict_get_set_other)
  have p: "printed st1 = printed st0 @ [Epoch_line ep lv a_train a_val a_test]"
    by (simp add: st' Let_def)
  from t k v e p show ?thesis by blast
qed

lemma printed_batches:
  "train_batches env dls ep st bs = Inr st' \<Longrightarrow>
     \<exists>lines. printed st' = printed st @ lines
       \<and> map line_epoch lines = replicate (length bs) (Some ep)"
proof (induction bs arbitrary: st)
  case Nil
  then show ?case by simp
next
  case (Cons b bs)
  from Cons.prems obtain st1 where s: "train_batch env dls ep st b = Inr st1"
    and r: "train_batches env dls ep st1 bs = Inr st'"
    by (auto split: sum.splits)
  from train_batch_log [OF s] obtain l where l: "printed st1 = printed st @ [l]"
    and le: "line_epoch l = Some ep" by force
  from Cons.IH [OF r] obtain lines where "printed st' = printed st1 @ lines"
    "map line_epoch lines = replicate (length bs) (Some ep)" by blast
  with l le show ?case by (intro exI [of _ "l # lines"]) simp
qed

lemma printed_epochs:
  "train_epochs env dls st es = Inr st' \<Longrightarrow>
     \<exists>lines. printed st' = printed st @ lines
       \<and> map line_epoch lines =
           concat (map (\<lambda>e. replicate (length (train_loader dls)) (Some e)) es)"
proof (induction es arbitrary: st)
  case Nil
  then show ?case by simp
next
  case (Cons e es)
  from Cons.prems obtain loader st1 where g: "dict_get dls ''train'' = Inr loader"
    and b: "train_batches env dls e (st\<lparr>t_accu_sum := PyInt 0, t_accu_cnt := 0\<rparr>) loader = Inr st1"
    and r: "train_epochs env dls st1 es = Inr st'"
    by (auto split: sum.splits)
  have tl: "train_loader dls = loader"
    using g by (auto simp: train_loader_def dict_get_def split: option.splits)
  from printed_batches [OF b] obtain l1 where l1: "printed st1 = printed st @ l1"
    "map line_epoch l1 = replicate (length loader) (Some e)" by auto
  from Cons.IH [OF r] obtain l2 where l2: "printed st' = printed st1 @ l2"
    "map line_epoch l2 = concat (map (\<lambda>e. replicate (length (train_loader dls)) (Some e)) es)"
    by blast
  from l1 l2 tl show ?case by (intro exI [of _ "l1 @ l2"]) simp
qed

lemma staged_loss_late:
  "\<exists>lv. loss [(''0'', [1, 1, 1, 1, 1, 1, 1, - 1, - 1, - 1])]
            [(''0'', [1, 1, 1, 1, 1, 1, 1, 1, 1, 1])] = Inr (TensorLoss lv)"
  by (rule loss_tensor) (simp_all add: shapes_agree_def)

lemma two_loaders_run:
  "map_sum id outcome (train staged_net 0 two_loaders () (defaults\<lparr>epochs := 3\<rparr>)) =
     Inr ([Fl (6 / 10), Fl (6 / 10), Fl (7 / 10), Fl (7 / 10)], [4, 1, 3], 2)"
proof -
  obtain lv where lv: "loss [(''0'', [1, 1, 1, 1, 1, 1, - 1, - 1, - 1, - 1])]
            [(''0'', [1, 1, 1, 1, 1, 1, 1, 1, 1, 1])] = Inr (TensorLoss lv)"
    using staged_loss by blast
  obtain lv' where lv': "loss [(''0'', [1, 1, 1, 1, 1, 1, 1, - 1, - 1, - 1])]
            [(''0'', [1, 1, 1, 1, 1, 1, 1, 1, 1, 1])] = Inr (TensorLoss lv')"
    using staged_loss_late by blast
  show ?thesis
    by (simp add: train_def train_batch_def best_eval_def test_def staged_net_def exam_def
        two_loaders_def init_state_def outcome_def lv lv' count_eval Let_def upto_rec1
        del: count_keys.simps(2))
qed

text \<open>
  C6. The epochs run from 1 to the configured count, which is excluded. Every training batch
  is followed by an evaluation of the model on the splits other than \<^verbatim>\<open>train\<close> and by one
  printed line, which reports the epoch: a run prints, for each epoch in turn, as many lines
  as the training loader yields batches. After the epochs the best model is evaluated once on
  all the splits, and the last line printed holds the three accuracies of that evaluation.
\<close>

theorem log_after_every_batch:
  "(train_batch env dls ep st0 b = Inr st1 \<longrightarrow>
     (\<exists>h0 h accs lv tr va te.
        test env h0 0 (filter (\<lambda>(key, val). key \<noteq> ''train'') dls) = Inr (h, accs)
        \<and> set (map fst accs) = set (map fst dls) - {''train''}
        \<and> dict_get accs ''val'' = Inr va \<and> dict_get accs ''test'' = Inr te
        \<and> printed st1 = printed st0 @ [Epoch_line ep lv tr va te]))
   \<and> (train env m dls opt a = Inr st \<longrightarrow>
     (\<exists>lines st1 h accs tr va te.
        printed st = lines @ [Best_line tr va te]
        \<and> map line_epoch lines =
            concat (map (\<lambda>e. replicate (length (train_loader dls)) (Some e)) [1..epochs a - 1])
        \<and> train_epochs env dls (init_state m opt) [1..epochs a - 1] = Inr st1
        \<and> test env (heap st1) (best_model st1) dls = Inr (h, accs)
        \<and> set (map fst accs) = set (map fst dls)
        \<and> dict_get accs ''train'' = Inr tr \<and> dict_get accs ''val'' = Inr va
        \<and> dict_get accs ''test'' = Inr te))"
proof (intro conjI impI)
  assume "train_batch env dls ep st0 b = Inr st1"
  then show "\<exists>h0 h accs lv tr va te.
        test env h0 0 (filter (\<lambda>(key, val). key \<noteq> ''train'') dls) = Inr (h, accs)
        \<and> set (map fst accs) = set (map fst dls) - {''train''}
        \<and> dict_get accs ''val'' = Inr va \<and> dict_get accs ''test'' = Inr te
        \<and> printed st1 = printed st0 @ [Epoch_line ep lv tr va te]"
    by (rule train_batch_log)
next
  assume "train env m dls opt a = Inr st"
  then obtain st1 where
    e: "train_epochs env dls (init_state m opt) [1..epochs a - 1] = Inr st1"
    and b: "best_eval env dls st1 = Inr st"
    by (auto simp: train_def split: sum.splits)
  from printed_epochs [OF e] obtain lines where
    l: "printed st1 = lines"
    "map line_epoch lines =
       concat (map (\<lambda>e. replicate (length (train_loader dls)) (Some e)) [1..epochs a - 1])"
    by (auto simp: init_state_def)
  from best_eval_Inr [OF b] obtain h accs tr va te where
    t: "test env (heap st1) (best_model st1) dls = Inr (h, accs)"
    and g: "dict_get accs ''train'' = Inr tr" "dict_get accs ''val'' = Inr va"
      "dict_get accs ''test'' = Inr te"
    and st: "st = st1\<lparr>heap := h, printed := printed st1 @ [Best_line tr va te]\<rparr>"
    by blast
  have p: "printed st = lines @ [Best_line tr va te]" using st l(1) by simp
  from p l(2) e t test_keys [OF t] g
  show "\<exists>lines st1 h accs tr va te.
        printed st = lines @ [Best_line tr va te]
        \<and> map line_epoch lines =
            concat (map (\<lambda>e. replicate (length (train_loader dls)) (Some e)) [1..epochs a - 1])
        \<and> train_epochs env dls (init_state m opt) [1..epochs a - 1] = Inr st1
        \<and> test env (heap st1) (best_model st1) dls = Inr (h, accs)
        \<and> set (map fst accs) = set (map fst dls)
        \<and> dict_get accs ''train'' = Inr tr \<and> dict_get accs ''val'' = Inr va
        \<and> dict_get accs ''test'' = Inr te"
    by blast
qed

theorem log_after_every_batch_witness:
  "\<exists>st lines tr va te.
      train staged_net 0 two_loaders () (defaults\<lparr>epochs := 3\<rparr>) = Inr st
      \<and> printed st = lines @ [Best_line tr va te]
      \<and> map line_epoch lines = [Some 1, Some 1, Some 2, Some 2]
      \<and> (\<exists>st1. train_batch staged_net two_loaders 1 (init_state 0 ()) exam = Inr st1
            \<and> length (printed st1) = 1)"
proof -
  obtain st where st: "train staged_net 0 two_loaders () (defaults\<lparr>epochs := 3\<rparr>) = Inr st"
    using two_loaders_run
    by (cases "train staged_net 0 two_loaders () (defaults\<lparr>epochs := 3\<rparr>)") auto
  obtain lv where lv: "loss [(''0'', [1, 1, 1, 1, 1, 1, - 1, - 1, - 1, - 1])]
            [(''0'', [1, 1, 1, 1, 1, 1, 1, 1, 1, 1])] = Inr (TensorLoss lv)"
    using staged_loss by blast
  obtain st1 where st1: "train_batch staged_net two_loaders 1 (init_state 0 ()) exam = Inr st1"
    by (simp add: train_batch_def test_def staged_net_def exam_def
        two_loaders_def init_state_def lv count_eval Let_def
        del: count_keys.simps(2))
  note inst = log_after_every_batch
    [of staged_net two_loaders 1 "init_state 0 ()" exam st1 0 "()" "defaults\<lparr>epochs := 3\<rparr>" st]
  have tl: "length (train_loader two_loaders) = 2"
    by (simp add: train_loader_def two_loaders_def)
  from inst st obtain lines tr va te where
    p: "printed st = lines @ [Best_line tr va te]"
    and e: "map line_epoch lines =
      concat (map (\<lambda>e. replicate (length (train_loader two_loaders)) (Some e))
        [1..epochs (defaults\<lparr>epochs := 3\<rparr>) - 1])"
    by blast
  have e': "map line_epoch lines = [Some 1, Some 1, Some 2, Some 2]"
    unfolding e tl by (simp add: upto_rec1 numeral_2_eq_2)
  from inst st1 have len: "length (printed st1) = 1"
    by (auto simp: init_state_def)
  have inner: "\<exists>st1. train_batch staged_net two_loaders 1 (init_state 0 ()) exam = Inr st1
            \<and> length (printed st1) = 1"
    by (rule exI [of _ st1]) (simp only: st1 len)
  show ?thesis
    by (rule exI [of _ st], rule exI [of _ lines], rule exI [of _ tr], rule exI [of _ va],
        rule exI [of _ te]) (simp only: st p e' inner)
qed

section \<open>The loss\<close>

lemma bce_of_sigmoid:
  assumes "length yk = length s"
  shows "BCEWithLogitsLoss (map sigmoid s) (map real_of_int yk) = Inr (type_loss s yk)"
proof -
  have "map (\<lambda>(x, y). bce_elem x y) (zip (map sigmoid s) (map real_of_int yk)) =
        map (\<lambda>(x, t). double_sigmoid_bce x (real_of_int t)) (zip s yk)"
    by (simp add: zip_map_map split_def bce_elem_def double_sigmoid_bce_def)
  then show ?thesis
    using assms by (simp add: BCEWithLogitsLoss_def type_loss_def)
qed

lemma loss_number_add: "loss_number (loss_add l v) = fl_add (loss_number l) v"
  by (cases l) simp_all

lemma loss_add_tensor: "\<exists>u. loss_add l v = TensorLoss u"
  by (cases l) simp_all

lemma loss_keys_sum:
  assumes "shapes_agree pred y"
  shows "\<exists>l'. loss_keys pred y l = Inr l'
     \<and> loss_number l' =
         foldl fl_add (loss_number l) (map (\<lambda>(key, s). type_loss s (the (map_of y key))) pred)
     \<and> (pred = [] \<longrightarrow> l' = l) \<and> (pred \<noteq> [] \<longrightarrow> (\<exists>u. l' = TensorLoss u))"
  using assms
proof (induction pred arbitrary: l)
  case Nil
  then show ?case by simp
next
  case (Cons ks rest)
  obtain key s where ks: "ks = (key, s)" by (cases ks)
  from Cons.prems obtain yk where yk: "map_of y key = Some yk" "length yk = length s"
    and rest: "shapes_agree rest y"
    by (auto simp: shapes_agree_def ks split: option.splits)
  have step: "loss_keys (ks # rest) y l = loss_keys rest y (loss_add l (type_loss s yk))"
    by (simp add: ks Let_def dict_get_def yk bce_of_sigmoid)
  from Cons.IH [OF rest, of "loss_add l (type_loss s yk)"] obtain l' where
    l': "loss_keys rest y (loss_add l (type_loss s yk)) = Inr l'"
    and n: "loss_number l' = foldl fl_add (loss_number (loss_add l (type_loss s yk)))
          (map (\<lambda>(key, s). type_loss s (the (map_of y key))) rest)"
    and e: "rest = [] \<longrightarrow> l' = loss_add l (type_loss s yk)"
    and t: "rest \<noteq> [] \<longrightarrow> (\<exists>u. l' = TensorLoss u)"
    by blast
  have "\<exists>u. l' = TensorLoss u"
    using e t loss_add_tensor [of l "type_loss s yk"] by (cases "rest = []") auto
  then show ?case
    unfolding step using l' n by (simp add: ks yk loss_number_add)
qed

text \<open>
  C2. For a prediction and a ground truth with the same relation types (and tensors of the
  same sizes), the loss is the sum over the relation types, not their average, of the binary
  cross-entropy with logits of the sigmoid of the scores against the labels cast to floats:
  the sigmoid is applied before the loss that applies it again. Without any relation type
  the loss is the Python integer 0.
\<close>

theorem loss_is_sum_of_sigmoided_bce:
  assumes "shapes_agree pred y"
  shows "\<exists>l. loss pred y = Inr l \<and> loss_number l = spec_loss pred y
     \<and> (pred = [] \<longrightarrow> l = IntLoss 0) \<and> (pred \<noteq> [] \<longrightarrow> l = TensorLoss (spec_loss pred y))"
proof -
  from loss_keys_sum [OF assms, of "IntLoss 0"] obtain l where
    l: "loss_keys pred y (IntLoss 0) = Inr l"
    and n: "loss_number l = spec_loss pred y"
    and e: "pred = [] \<longrightarrow> l = IntLoss 0"
    and t: "pred \<noteq> [] \<longrightarrow> (\<exists>u. l = TensorLoss u)"
    by (auto simp: spec_loss_def fl_sum_def)
  have "pred \<noteq> [] \<longrightarrow> l = TensorLoss (spec_loss pred y)"
    using t n by auto
  with l n e show ?thesis by (auto simp: loss_def)
qed

theorem loss_is_sum_of_sigmoided_bce_witness:
  "shapes_agree [(''0'', [0]), (''1'', [0])] [(''0'', [1]), (''1'', [1])]
   \<and> loss [(''0'', [0]), (''1'', [0])] [(''0'', [1]), (''1'', [1])] =
       Inr (TensorLoss (Fl (- ln (sigmoid (1 / 2)) + - ln (sigmoid (1 / 2)))))"
proof -
  have sh: "shapes_agree [(''0'', [0]), (''1'', [0])] [(''0'', [1]), (''1'', [1])]"
    by (simp add: shapes_agree_def)
  have s0: "sigmoid 0 = 1 / 2" by (simp add: sigmoid_def)
  have sp: "spec_loss [(''0'', [0]), (''1'', [0])] [(''0'', [1]), (''1'', [1])] =
      Fl (- ln (sigmoid (1 / 2)) + - ln (sigmoid (1 / 2)))"
    by (simp add: spec_loss_def fl_sum_def type_loss_def double_sigmoid_bce_def s0)
  from loss_is_sum_of_sigmoided_bce [OF sh] sp sh show ?thesis by auto
qed

section \<open>Properties of the graph transformer\<close>

lemma str_nat_small: "n < 10 \<Longrightarrow> str_nat n = [''0123456789'' ! n]"
  by (subst str_nat.simps) simp

lemma str_nat_large:
  "10 \<le> n \<Longrightarrow> str_nat n = str_nat (n div 10) @ [''0123456789'' ! (n mod 10)]"
  by (subst str_nat.simps) simp

lemma one_edge_transformed:
  "WN_transform one_edge 2 5 =
     Inr \<lparr>h_nodes = [\<lparr>node = 0, node_type = ''n1'', node_feature = [1, 1, 1, 1, 1]\<rparr>,
                     \<lparr>node = 5871, node_type = ''n1'', node_feature = [1, 1, 1, 1, 1]\<rparr>],
          h_edges = [\<lparr>h_src = 0, h_dst = 5871, h_key = 0, edge_feature = [0, 1],
                      edge_type = ''1''\<rparr>]\<rparr>"
  by (simp add: WN_transform_def one_edge_def set_one_def label_val_def item_str_def
      add_edge_def new_edge_key_def str_int_def str_nat_small
      numeral_2_eq_2 eval_nat_numeral)

lemma set_one_in_range:
  assumes "0 \<le> i" "i < int n"
  shows "\<exists>xs. set_one (replicate n 0) i = Inr xs \<and> one_hot n i xs"
proof -
  have "set_one (replicate n 0) i = Inr ((replicate n 0)[nat i := 1])"
    using assms by (simp add: set_one_def)
  moreover have "one_hot n i ((replicate n 0)[nat i := 1])"
    using assms by (auto simp: one_hot_def nth_list_update)
  ultimately show ?thesis by blast
qed

lemma add_edges_ok:
  assumes "list_all (\<lambda>e. case e_label e of Some (Item_label i) \<Rightarrow> 0 \<le> i \<and> i < int n | _ \<Rightarrow> False) es"
  shows "\<exists>new. add_edges n es H = Inr (H\<lparr>h_edges := h_edges H @ new\<rparr>)
     \<and> list_all2 (edge_transformed n) es new"
  using assms
proof (induction es arbitrary: H)
  case Nil
  then show ?case by simp
next
  case (Cons e es)
  from Cons.prems obtain i where l: "e_label e = Some (Item_label i)" and r: "0 \<le> i" "i < int n"
    and rest: "list_all (\<lambda>e. case e_label e of Some (Item_label i) \<Rightarrow> 0 \<le> i \<and> i < int n | _ \<Rightarrow> False) es"
    by (auto split: option.splits e_label_val.splits)
  from set_one_in_range [OF r] obtain xs where
    xs: "set_one (replicate n 0) i = Inr xs" "one_hot n i xs" by blast
  define he where "he = \<lparr>h_src = src e, h_dst = dst e, h_key = new_edge_key (h_edges H) (src e) (dst e),
            edge_feature = xs, edge_type = str_int i\<rparr>"
  have step: "add_edges n (e # es) H = add_edges n es (H\<lparr>h_edges := h_edges H @ [he]\<rparr>)"
    by (simp add: l xs label_val_def item_str_def add_edge_def he_def)
  have t: "edge_transformed n e he"
    by (simp add: edge_transformed_def he_def l xs label_val_def)
  from Cons.IH [OF rest, of "H\<lparr>h_edges := h_edges H @ [he]\<rparr>"] obtain new where
    "add_edges n es (H\<lparr>h_edges := h_edges H @ [he]\<rparr>) =
       Inr (H\<lparr>h_edges := h_edges H @ [he] @ new\<rparr>)"
    "list_all2 (edge_transformed n) es new"
    by auto
  with step t show ?case by (intro exI [of _ "he # new"]) simp
qed

lemma add_node_fresh: "node n \<notin> node ` set ns \<Longrightarrow> add_node ns n = ns @ [n]"
  by (induction ns) auto

lemma fold_add_node:
  assumes that: "\<And>v. node (f v) = v"
    and "distinct vs" "set vs \<inter> node ` set ns = {}"
  shows "fold (\<lambda>v ns. add_node ns (f v)) vs ns = ns @ map f vs"
  using assms(2,3)
proof (induction vs arbitrary: ns)
  case Nil
  then show ?case by simp
next
  case (Cons v vs)
  have "node (f v) \<notin> node ` set ns" using Cons.prems(2) that by auto
  then have a: "add_node ns (f v) = ns @ [f v]" by (rule add_node_fresh)
  have d: "distinct vs" using Cons.prems(1) by simp
  have i: "set vs \<inter> node ` set (ns @ [f v]) = {}"
    using Cons.prems that by auto
  show ?case using Cons.IH [OF d i] a by simp
qed

text \<open>
  C4. On a raw graph whose labels are integer scalars between 0 and the number of edge types
  (the assumption of the data model), \<^verbatim>\<open>WN_transform\<close> returns a graph with the same
  nodes, each of type \<^verbatim>\<open>n1\<close> with a feature vector of ones, and, edge for edge in the same
  order, an edge between the same two nodes whose feature vector has the width
  \<^verbatim>\<open>num_edge_types\<close>, a 1 at the index of the label and 0 elsewhere, and whose type is
  \<^verbatim>\<open>str\<close> of the label.
\<close>

theorem WN_transform_one_hot:
  assumes "labels_in_range num_edge_types G" and "distinct (nodes G)"
  shows "\<exists>H. WN_transform G num_edge_types input_dim = Inr H
     \<and> h_nodes H =
         map (\<lambda>v. \<lparr>node = v, node_type = ''n1'', node_feature = replicate input_dim 1\<rparr>) (nodes G)
     \<and> list_all2 (edge_transformed num_edge_types) (edges G) (h_edges H)"
proof -
  have n: "fold (\<lambda>v ns. add_node ns
              \<lparr>node = v, node_type = ''n1'', node_feature = replicate input_dim 1\<rparr>) (nodes G) [] =
      map (\<lambda>v. \<lparr>node = v, node_type = ''n1'', node_feature = replicate input_dim 1\<rparr>) (nodes G)"
    using fold_add_node [of "\<lambda>v. \<lparr>node = v, node_type = ''n1'', node_feature = replicate input_dim 1\<rparr>"
        "nodes G" "[]"] assms(2) by simp
  define H0 where "H0 = \<lparr>h_nodes =
      map (\<lambda>v. \<lparr>node = v, node_type = ''n1'', node_feature = replicate input_dim 1\<rparr>) (nodes G),
      h_edges = []\<rparr>"
  from add_edges_ok [OF assms(1) [unfolded labels_in_range_def], of H0] obtain new where
    e: "add_edges num_edge_types (edges G) H0 = Inr (H0\<lparr>h_edges := h_edges H0 @ new\<rparr>)"
    and t: "list_all2 (edge_transformed num_edge_types) (edges G) new"
    by blast
  have "WN_transform G num_edge_types input_dim = Inr (H0\<lparr>h_edges := h_edges H0 @ new\<rparr>)"
    unfolding WN_transform_def n using e by (simp add: H0_def)
  with t show ?thesis by (simp add: H0_def)
qed

theorem WN_transform_one_hot_witness:
  "labels_in_range 2 one_edge \<and> distinct (nodes one_edge)
   \<and> WN_transform one_edge 2 5 =
     Inr \<lparr>h_nodes = [\<lparr>node = 0, node_type = ''n1'', node_feature = [1, 1, 1, 1, 1]\<rparr>,
                     \<lparr>node = 5871, node_type = ''n1'', node_feature = [1, 1, 1, 1, 1]\<rparr>],
          h_edges = [\<lparr>h_src = 0, h_dst = 5871, h_key = 0, edge_feature = [0, 1],
                      edge_type = ''1''\<rparr>]\<rparr>
   \<and> edge_transformed 2 (hd (edges one_edge))
        \<lparr>h_src = 0, h_dst = 5871, h_key = 0, edge_feature = [0, 1], edge_type = ''1''\<rparr>"
proof -
  have a: "labels_in_range 2 one_edge" by (simp add: labels_in_range_def one_edge_def)
  have b: "distinct (nodes one_edge)" by (simp add: one_edge_def)
  from WN_transform_one_hot [OF a b, of 5] obtain H where
    H: "WN_transform one_edge 2 5 = Inr H"
    and l: "list_all2 (edge_transformed 2) (edges one_edge) (h_edges H)" by blast
  from H have "h_edges H =
      [\<lparr>h_src = 0, h_dst = 5871, h_key = 0, edge_feature = [0, 1], edge_type = ''1''\<rparr>]"
    by (auto simp: one_edge_transformed)
  with l have "edge_transformed 2 (hd (edges one_edge))
        \<lparr>h_src = 0, h_dst = 5871, h_key = 0, edge_feature = [0, 1], edge_type = ''1''\<rparr>"
    by (simp add: one_edge_def)
  with a b one_edge_transformed show ?thesis by simp
qed

section \<open>Labels without \<^verbatim>\<open>item\<close>\<close>

lemma add_edges_Inr_item:
  "add_edges n es H = Inr H' \<Longrightarrow> list_all (\<lambda>e. has_item (e_label e)) es"
proof (induction es arbitrary: H)
  case Nil
  then show ?case by simp
next
  case (Cons e es)
  from Cons.prems obtain l xs t where l: "e_label e = Some l" and t: "item_str l = Inr t"
    and r: "add_edges n es (add_edge H (src e) (dst e) xs t) = Inr H'"
    by (auto split: option.splits sum.splits)
  from t have "has_item (e_label e)"
    by (cases l) (simp_all add: item_str_def has_item_def l)
  with Cons.IH [OF r] show ?case by simp
qed

text \<open>
  C10. \<^verbatim>\<open>WN_transform\<close> succeeds only when the label of every edge has the \<^verbatim>\<open>item\<close>
  method. On a plain Python int the construction of the edge type, \<^verbatim>\<open>str(l.item())\<close>,
  raises \<^verbatim>\<open>AttributeError\<close> instead of giving the string of the label, and so does
  \<^verbatim>\<open>WN_transform\<close> on a graph whose first edge has such a label, when the label is an index
  of the one-hot vector (the assignment before it succeeds).
\<close>

theorem WN_transform_needs_item:
  "(WN_transform G n d = Inr H \<longrightarrow> list_all (\<lambda>e. has_item (e_label e)) (edges G))
   \<and> item_str (Int_label i) = Inl AttributeError
   \<and> (edges G = e # es \<longrightarrow> e_label e = Some (Int_label i) \<longrightarrow> - int n \<le> i \<longrightarrow> i < int n \<longrightarrow>
        WN_transform G n d = Inl AttributeError)"
proof (intro conjI impI)
  assume "WN_transform G n d = Inr H"
  then show "list_all (\<lambda>e. has_item (e_label e)) (edges G)"
    unfolding WN_transform_def by (rule add_edges_Inr_item)
next
  show "item_str (Int_label i) = Inl AttributeError" by (simp add: item_str_def)
next
  assume "edges G = e # es" "e_label e = Some (Int_label i)" "- int n \<le> i" "i < int n"
  then show "WN_transform G n d = Inl AttributeError"
    by (simp add: WN_transform_def set_one_def label_val_def item_str_def Let_def)
qed

theorem WN_transform_needs_item_witness:
  "WN_transform plain_edge 2 5 = Inl AttributeError
   \<and> (\<exists>H. WN_transform one_edge 2 5 = Inr H)
   \<and> list_all (\<lambda>e. has_item (e_label e)) (edges one_edge)"
proof -
  have "WN_transform plain_edge 2 5 = Inl AttributeError"
    using WN_transform_needs_item [of plain_edge 2 5 "\<lparr>h_nodes = [], h_edges = []\<rparr>" 1
        "\<lparr>src = 0, dst = 5871, edge_key = 0, e_label = Some (Int_label 1)\<rparr>" "[]"]
    by (simp add: plain_edge_def)
  moreover from one_edge_transformed obtain H where H: "WN_transform one_edge 2 5 = Inr H"
    by blast
  moreover have "list_all (\<lambda>e. has_item (e_label e)) (edges one_edge)"
    using WN_transform_needs_item [of one_edge 2 5 H] H by blast
  ultimately show ?thesis by blast
qed

section \<open>Options without effect\<close>

lemma same_wired_set: "same_wired a b \<Longrightarrow> same_wired (set_option opt a) (set_option opt b)"
  by (cases opt) (simp_all add: same_wired_def)

lemma same_wired_unwired: "\<not> wired opt \<Longrightarrow> same_wired a b \<Longrightarrow> same_wired (set_option opt a) b"
  by (cases opt) (simp_all add: same_wired_def)

lemma same_wired_fold:
  "same_wired a b \<Longrightarrow>
     same_wired (fold set_option argv a) (fold set_option (filter wired argv) b)"
proof (induction argv arbitrary: a b)
  case Nil
  then show ?case by simp
next
  case (Cons opt argv)
  show ?case
  proof (cases "wired opt")
    case True
    then show ?thesis using Cons.IH [OF same_wired_set [OF Cons.prems]] by simp
  next
    case False
    then show ?thesis using Cons.IH [OF same_wired_unwired [OF False Cons.prems]] by simp
  qed
qed

lemma same_wired_sym: "same_wired a b \<Longrightarrow> same_wired b a"
  by (simp add: same_wired_def)

lemma same_wired_trans: "same_wired a b \<Longrightarrow> same_wired b c \<Longrightarrow> same_wired a c"
  by (simp add: same_wired_def)

lemma build_model_same:
  assumes "same_wired a b"
  shows "build_model lib a hete = build_model lib b hete"
proof -
  have d: "device a = device b" using assms by (simp add: same_wired_def)
  show ?thesis unfolding build_model_def d ..
qed

lemma train_same:
  assumes "same_wired a b"
  shows "train env m dls opt a = train env m dls opt b"
proof -
  have e: "epochs a = epochs b" using assms by (simp add: same_wired_def)
  show ?thesis unfolding train_def e ..
qed

lemma main_args_same:
  assumes "same_wired a b"
  shows "main_args lib a = main_args lib b"
proof -
  have d: "data_path a = data_path b" and m: "mode a = mode b"
    using assms by (simp_all add: same_wired_def)
  show ?thesis
    unfolding main_args_def d m build_model_same [OF assms] train_same [OF assms] ..
qed

lemma toy_run:
  "map_sum id outcome (main toy_lib [Hidden_dim 64, Model ''GCN'', Epochs 2]) =
     Inr ([Fl (7 / 10)], [33, 33], 1)"
proof -
  obtain lv where lv: "loss [(''0'', [1, 1, 1, 1, 1, 1, 1, - 1, - 1, - 1])]
            [(''0'', [1, 1, 1, 1, 1, 1, 1, 1, 1, 1])] = Inr (TensorLoss lv)"
    using staged_loss_late by blast
  have g: "WN_transform two_edges (Suc (Suc 0)) 5 =
     Inr \<lparr>h_nodes = [\<lparr>node = 0, node_type = ''n1'', node_feature = [1, 1, 1, 1, 1]\<rparr>,
                     \<lparr>node = 5871, node_type = ''n1'', node_feature = [1, 1, 1, 1, 1]\<rparr>],
          h_edges = [\<lparr>h_src = 0, h_dst = 5871, h_key = 0, edge_feature = [1, 0],
                      edge_type = ''0''\<rparr>,
                     \<lparr>h_src = 5871, h_dst = 0, h_key = 0, edge_feature = [0, 1],
                      edge_type = ''1''\<rparr>]\<rparr>"
    by (simp add: WN_transform_def two_edges_def set_one_def label_val_def item_str_def
      add_edge_def new_edge_key_def str_int_def str_nat_small
      numeral_2_eq_2 eval_nat_numeral)
  have n0: "0 \<in> set (nodes two_edges)"
    and le: "list_ex (\<lambda>e. src e = 0 \<and> dst e = 5871) (edges two_edges)"
    by (simp_all add: two_edges_def)
  have c: "collect_labels (edges two_edges) [] = Inr [Item_label 0, Item_label 1]"
    by (simp add: two_edges_def label_val_def)
  have t: "train staged_net 32 [(''train'', [exam]), (''val'', [exam]), (''test'', [exam])] ()
        (arg_parse [Hidden_dim 64, Model ''GCN'', Epochs 2]) = 
        train staged_net 32 staged_loaders () (defaults\<lparr>epochs := 2\<rparr>)"
    by (simp add: train_def arg_parse_def staged_loaders_def defaults_def)
  have r: "map_sum id outcome (train staged_net 32 staged_loaders () (defaults\<lparr>epochs := 2\<rparr>)) =
     Inr ([Fl (7 / 10)], [33, 33], 1)"
    by (simp add: train_def train_batch_def best_eval_def test_def staged_net_def exam_def
        staged_loaders_def init_state_def outcome_def lv count_eval Let_def upto_rec1
        del: count_keys.simps(2))
  have "main toy_lib [Hidden_dim 64, Model ''GCN'', Epochs 2] =
      train staged_net 32 staged_loaders () (defaults\<lparr>epochs := 2\<rparr>)"
    unfolding main_def main_args_def
    by (simp add: toy_lib_def c g n0 le build_model_def t)
  with r show ?thesis by simp
qed

text \<open>
  C7. The options \<^verbatim>\<open>--hidden_dim\<close> and \<^verbatim>\<open>--model\<close>, with the defaults 16 and
  \<^verbatim>\<open>MlpMessage\<close>, are parsed and have no effect: two command lines that differ only in
  these options give the same run of \<^verbatim>\<open>main\<close> and the same constructed model, whose hidden
  size is 32.
\<close>

theorem hidden_dim_and_model_unused:
  assumes "filter wired argv = filter wired argv'"
  shows "main lib argv = main lib argv'
    \<and> build_model lib (arg_parse argv) hete = build_model lib (arg_parse argv') hete
    \<and> build_model lib (arg_parse argv) hete =
        (case HeteroNet lib hete 32 (2 / 10) of Inl e \<Rightarrow> Inl e
         | Inr m \<Rightarrow> to_device lib m (device (arg_parse argv)))
    \<and> hidden_dim (arg_parse []) = 16 \<and> model (arg_parse []) = ''MlpMessage''"
proof -
  have "same_wired (arg_parse argv) (fold set_option (filter wired argv) defaults)"
    unfolding arg_parse_def by (rule same_wired_fold) (simp add: same_wired_def)
  moreover have "same_wired (arg_parse argv') (fold set_option (filter wired argv') defaults)"
    unfolding arg_parse_def by (rule same_wired_fold) (simp add: same_wired_def)
  ultimately have s: "same_wired (arg_parse argv) (arg_parse argv')"
    using assms same_wired_sym same_wired_trans by metis
  have "main lib argv = main lib argv'"
    unfolding main_def by (rule main_args_same [OF s])
  moreover have "build_model lib (arg_parse argv) hete = build_model lib (arg_parse argv') hete"
    by (rule build_model_same [OF s])
  moreover have "build_model lib (arg_parse argv) hete =
        (case HeteroNet lib hete 32 (2 / 10) of Inl e \<Rightarrow> Inl e
         | Inr m \<Rightarrow> to_device lib m (device (arg_parse argv)))"
    by (simp add: build_model_def)
  moreover have "hidden_dim (arg_parse []) = 16 \<and> model (arg_parse []) = ''MlpMessage''"
    by (simp add: arg_parse_def defaults_def)
  ultimately show ?thesis by blast
qed

theorem hidden_dim_and_model_unused_witness:
  "filter wired [Hidden_dim 64, Model ''GCN'', Epochs 2] = filter wired [Epochs 2]
   \<and> main toy_lib [Hidden_dim 64, Model ''GCN'', Epochs 2] = main toy_lib [Epochs 2]
   \<and> map_sum id outcome (main toy_lib [Epochs 2]) = Inr ([Fl (7 / 10)], [33, 33], 1)"
proof -
  have f: "filter wired [Hidden_dim 64, Model ''GCN'', Epochs 2] = filter wired [Epochs 2]"
    by simp
  from hidden_dim_and_model_unused [OF f, of toy_lib]
  have "main toy_lib [Hidden_dim 64, Model ''GCN'', Epochs 2] = main toy_lib [Epochs 2]"
    by blast
  with f toy_run show ?thesis by simp
qed

end
